theory Spec2Isabelle
  imports Main "HOL-Library.Sublist"
begin

section \<open>The chat widget: values and strings\<close>

text \<open>
  The chat widget (\<^verbatim>\<open>src/unnamed/part_000\<close>) is one script over a global object
  \<^verbatim>\<open>chatState\<close>, the page and the browser's network objects. The embedding keeps the
  functions of the script under their names; each takes the state and returns the new one.

  JavaScript values that the script only compares, tests for truthiness or passes on are
  values of \<open>jsval\<close>. A number is finite and an integer (identifiers and counters are; no
  arithmetic is done on them), and \<open>JNum k\<close> is the number whose value is \<open>k\<close>. Strings
  are \<open>string\<close>, read as sequences of code units below 256.
\<close>

datatype jsval = JUndefined | JNull | JBool bool | JNum int | JStr string

text \<open>Truthiness, as \<^verbatim>\<open>if (v)\<close>, \<^verbatim>\<open>!v\<close>, \<^verbatim>\<open>a && b\<close> and \<^verbatim>\<open>a || b\<close> test it.\<close>

fun truthy :: "jsval \<Rightarrow> bool" where
  "truthy JUndefined = False"
| "truthy JNull = False"
| "truthy (JBool b) = b"
| "truthy (JNum n) = (n \<noteq> 0)"
| "truthy (JStr s) = (s \<noteq> [])"

text \<open>\<^verbatim>\<open>a || b\<close> on values.\<close>

definition js_or :: "jsval \<Rightarrow> jsval \<Rightarrow> jsval" where
  "js_or a b = (if truthy a then a else b)"

text \<open>
  White space as \<^verbatim>\<open>String.prototype.trim\<close> and \<^verbatim>\<open>parseInt\<close> strip it: TAB, LF, VT, FF,
  CR, SP and NBSP (the white space and line terminators among the code units below 256).
\<close>

definition is_ws :: "char \<Rightarrow> bool" where
  "is_ws c = ((of_char c :: nat) \<in> {9, 10, 11, 12, 13, 32, 160})"

definition trim :: "string \<Rightarrow> string" where
  "trim s = rev (dropWhile is_ws (rev (dropWhile is_ws s)))"

text \<open>\<^verbatim>\<open>String.prototype.toLowerCase\<close>: A-Z and the capital letters of Latin-1.\<close>

definition lower_char :: "char \<Rightarrow> char" where
  "lower_char c =
     (let n = (of_char c :: nat) in
      if (65 \<le> n \<and> n \<le> 90) \<or> (192 \<le> n \<and> n \<le> 222 \<and> n \<noteq> 215)
      then char_of (n + 32) else c)"

definition toLowerCase :: "string \<Rightarrow> string" where
  "toLowerCase s = map lower_char s"

text \<open>\<^verbatim>\<open>s.startsWith(t)\<close> and \<^verbatim>\<open>s.includes(t)\<close>, by scanning.\<close>

fun startsWith :: "string \<Rightarrow> string \<Rightarrow> bool" where
  "startsWith s [] = True"
| "startsWith [] (y # t) = False"
| "startsWith (x # s) (y # t) = (x = y \<and> startsWith s t)"

fun includes_str :: "string \<Rightarrow> string \<Rightarrow> bool" where
  "includes_str [] t = (t = [])"
| "includes_str (x # s) t = (startsWith (x # s) t \<or> includes_str s t)"

text \<open>\<^verbatim>\<open>s.split(c)\<close> for a one-character separator: never the empty array.\<close>

fun split_on :: "char \<Rightarrow> string \<Rightarrow> string list" where
  "split_on c [] = [[]]"
| "split_on c (x # s) =
     (if x = c then [] # split_on c s
      else (case split_on c s of p # ps \<Rightarrow> (x # p) # ps | [] \<Rightarrow> [[x]]))"

text \<open>
  The result of \<^verbatim>\<open>parseInt\<close> is a double: not a number, an infinity, or a finite integer.
\<close>

datatype number = NaN | PlusInfinity | MinusInfinity | Finite int

text \<open>
  The double nearest to a natural number (ties to the even significand of 53 bits);
  \<open>None\<close> when it is beyond the largest double and becomes an infinity. A number of at
  most 53 bits (below \<open>2^53\<close>) is a double; a double has at most 1024 bits.
\<close>

fun bit_length :: "nat \<Rightarrow> nat" where
  "bit_length n = (if n = 0 then 0 else Suc (bit_length (n div 2)))"

declare bit_length.simps [simp del]

definition to_double :: "nat \<Rightarrow> nat option" where
  "to_double n =
     (if bit_length n \<le> 53 then Some n
      else
        (let e = bit_length n - 53;
             q = n div 2 ^ e;
             r = n mod 2 ^ e;
             m = (if 2 * r > 2 ^ e \<or> (2 * r = 2 ^ e \<and> odd q) then q + 1 else q) * 2 ^ e
         in if bit_length m \<le> 1024 then Some m else None))"

text \<open>
  \<^verbatim>\<open>parseInt(s)\<close> with no radix: leading white space, an optional sign, an optional
  \<^verbatim>\<open>0x\<close> for radix 16, then the longest run of digits, whose value is rounded to a
  double (the latitude the standard gives to approximate decimals of more than 20 digits
  is not taken).
\<close>

definition digit_val :: "char \<Rightarrow> nat option" where
  "digit_val c =
     (let n = (of_char c :: nat) in
      if 48 \<le> n \<and> n \<le> 57 then Some (n - 48)
      else if 97 \<le> n \<and> n \<le> 122 then Some (n - 87)
      else if 65 \<le> n \<and> n \<le> 90 then Some (n - 55)
      else None)"

definition is_digit_in :: "nat \<Rightarrow> char \<Rightarrow> bool" where
  "is_digit_in R c = (case digit_val c of Some d \<Rightarrow> d < R | None \<Rightarrow> False)"

definition digits_value :: "nat \<Rightarrow> string \<Rightarrow> nat" where
  "digits_value R ds =
     foldl (\<lambda>a c. case digit_val c of Some d \<Rightarrow> a * R + d | None \<Rightarrow> a) 0 ds"

definition parseInt :: "string \<Rightarrow> number" where
  "parseInt str =
     (let s1 = dropWhile is_ws str;
          neg = (case s1 of c # _ \<Rightarrow> c = CHR ''-'' | [] \<Rightarrow> False);
          s2 = (case s1 of c # r \<Rightarrow> if c = CHR ''-'' \<or> c = CHR ''+'' then r else s1
                | [] \<Rightarrow> s1);
          hex = (case s2 of a # b # _ \<Rightarrow> a = CHR ''0'' \<and> (b = CHR ''x'' \<or> b = CHR ''X'')
                 | _ \<Rightarrow> False);
          R = (if hex then 16 else 10);
          s3 = (if hex then drop 2 s2 else s2);
          ds = takeWhile (is_digit_in R) s3
      in if ds = [] then NaN
         else (case to_double (digits_value R ds) of
                 None \<Rightarrow> if neg then MinusInfinity else PlusInfinity
               | Some m \<Rightarrow> Finite ((if neg then - 1 else 1) * int m)))"

text \<open>
  Modelled from the spec: the server code that builds \<^verbatim>\<open>room_name\<close> is not under
  \<^verbatim>\<open>src/\<close>; the spec says that segments 1 and 2 of a room name are the two participant
  ids. \<open>dec n\<close> is the decimal numeral of the id \<open>n\<close>, as such a segment holds it.
\<close>

fun dec :: "nat \<Rightarrow> string" where
  "dec n = (if n < 10 then [char_of (48 + n)]
            else dec (n div 10) @ [char_of (48 + n mod 10)])"

declare dec.simps [simp del]

text \<open>
  Lines 403-405 of \<^verbatim>\<open>loadChatMessages\<close>: the counterpart's id from the parts of the room
  name (at least three, checked before) and \<^verbatim>\<open>chatState.currentUserId\<close>. \<^verbatim>\<open>===\<close> between
  a number and a value is equality of values; \<^verbatim>\<open>NaN\<close> equals nothing, and no value of
  \<open>jsval\<close> is an infinity.
\<close>

definition strict_eq_num :: "number \<Rightarrow> jsval \<Rightarrow> bool" where
  "strict_eq_num n v = (case n of Finite k \<Rightarrow> v = JNum k | _ \<Rightarrow> False)"

definition otherUserId_of :: "string list \<Rightarrow> jsval \<Rightarrow> number" where
  "otherUserId_of parts cur =
     (let userId1 = parseInt (parts ! 1);
          userId2 = parseInt (parts ! 2)
      in if strict_eq_num userId1 cur then userId2 else userId1)"

section \<open>The state: \<^verbatim>\<open>chatState\<close>, the page and the network\<close>

text \<open>The records the script builds and receives (field names as in the script).\<close>

record otherUser =
  full_name :: string
  user_id :: jsval
  email :: jsval
  avatar :: jsval

text \<open>An entry of \<^verbatim>\<open>data.chat_rooms\<close> as the rooms endpoint returns it.\<close>

record api_room =
  other_user :: otherUser
  last_message_content :: jsval
  room_name :: string
  unread_count :: int
  is_bot_room :: bool

text \<open>
  An entry of \<^verbatim>\<open>chatState.chatRooms\<close>. The field \<^verbatim>\<open>time\<close> (a relative time computed
  from the clock) is left out.
\<close>

record room =
  userId :: jsval
  name :: string
  room_email :: jsval
  room_avatar :: jsval
  lastMessage :: jsval
  roomName :: string
  unreadCount :: int
  isBot :: bool

text \<open>A record of \<^verbatim>\<open>data.messages\<close> of the history endpoint (\<^verbatim>\<open>created_at\<close> left out).\<close>

record hist_msg =
  hist_sender_id :: jsval
  hist_sender_name :: jsval
  hist_sender_avatar :: jsval
  hist_content :: jsval

text \<open>An inbound frame of the push channel, parsed; an absent field is \<open>JUndefined\<close>.\<close>

record frame =
  sender_id :: jsval
  message :: jsval
  is_bot :: jsval
  username :: jsval
  sender_avatar :: jsval

text \<open>
  The element \<^verbatim>\<open>#chatMessages\<close> holds a sequence of children: a notice (a
  \<^verbatim>\<open>div.text-center.text-muted\<close> with a text) or a message row (sent or received, the
  content, the sender's name, the avatar chosen). The clock time shown in a row is left out.
\<close>

datatype pane_item = Notice string | MessageRow bool jsval jsval jsval

text \<open>The element \<^verbatim>\<open>#chatList\<close> and the badge \<^verbatim>\<open>#unreadBadge\<close>.\<close>

datatype list_pane = NoConversations | ListError | Conversations "room list"

datatype badge = BadgeHidden | BadgeCount int | BadgePlus

text \<open>
  A \<^verbatim>\<open>WebSocket\<close>: its URL (path only), its \<^verbatim>\<open>readyState\<close> and the texts handed to
  \<^verbatim>\<open>send\<close> (each wrapped as \<^verbatim>\<open>{"message": text}\<close>).
\<close>

datatype ready_state = CONNECTING | OPEN | CLOSING | CLOSED

record websocket =
  wsUrl :: string
  readyState :: ready_state
  outbox :: "string list"

text \<open>
  A \<^verbatim>\<open>fetch\<close> in flight, with what its callbacks have captured: the history load keeps
  \<^verbatim>\<open>roomName\<close> and \<^verbatim>\<open>otherUserId\<close>.
\<close>

datatype request = GetRooms | GetMessages string number | PostMarkRead number

text \<open>
  What comes back: the parsed body, or \<open>Failed\<close> with the error's message when the
  promise chain rejects (network error, a status that is not ok for the history load, a
  body that does not parse or lacks what the callback reads).
\<close>

datatype reply =
    RoomsData "api_room list" int
  | MessagesData "hist_msg list option"
  | MarkReadData jsval
  | Failed string

datatype view = VList | VDetail

text \<open>
  The fields of \<^verbatim>\<open>chatState\<close> first; then the sockets ever created (\<^verbatim>\<open>chatSocket\<close>
  refers to one by its index), the requests in flight, the retry timers armed by
  \<^verbatim>\<open>setTimeout\<close> (delay in milliseconds and the captured message), the alerts shown;
  then the page: \<^verbatim>\<open>window.chatRoomsApiUrl\<close> and the elements the script looks up
  (\<open>None\<close> or \<open>False\<close> when \<^verbatim>\<open>getElementById\<close> returns null).
\<close>

record state =
  isOpen :: bool
  isMinimized :: bool
  currentView :: view
  currentRoom :: "string option"
  currentUserId :: jsval
  currentUserAvatar :: jsval
  currentOtherUserId :: jsval
  currentOtherUserAvatar :: jsval
  currentIsBot :: bool
  filter_sel :: string
  searchQuery :: string
  chatRooms :: "room list"
  chatSocket :: "nat option"
  sockets :: "websocket list"
  pending :: "request list"
  timers :: "(nat \<times> string) list"
  alerts :: "string list"
  chatRoomsApiUrl :: jsval
  chatWindow :: bool
  chatToggleBtn :: bool
  chatMessages :: "pane_item list option"
  chatMessageInput :: "string option"
  chatList :: "list_pane option"
  unreadBadge :: "badge option"

section \<open>The functions of the script\<close>

subsection \<open>Room list\<close>

definition updateUnreadBadge :: "int \<Rightarrow> state \<Rightarrow> state" where
  "updateUnreadBadge totalUnread s =
     (case unreadBadge s of
        None \<Rightarrow> s
      | Some _ \<Rightarrow>
          if totalUnread > 0
          then s\<lparr>unreadBadge := Some (if totalUnread > 99 then BadgePlus else BadgeCount totalUnread)\<rparr>
          else s\<lparr>unreadBadge := Some BadgeHidden\<rparr>)"

text \<open>
  Lines 326-338 of \<^verbatim>\<open>renderChatList\<close>: the two filters, one after the other. The list
  pane then shows the rooms kept; the counter \<^verbatim>\<open>#chatCount\<close> and the data stored for
  the click handlers follow from them and are left out.
\<close>

definition filteredRooms :: "state \<Rightarrow> room list" where
  "filteredRooms s =
     (let rooms0 = chatRooms s;
          rooms1 = (if searchQuery s \<noteq> []
                    then filter (\<lambda>room. includes_str (toLowerCase (name room))
                                                      (toLowerCase (searchQuery s))) rooms0
                    else rooms0);
          rooms2 = (if filter_sel s = ''unread''
                    then filter (\<lambda>room. unreadCount room > 0) rooms1
                    else rooms1)
      in rooms2)"

definition renderChatList :: "state \<Rightarrow> state" where
  "renderChatList s =
     (case chatList s of
        None \<Rightarrow> s
      | Some _ \<Rightarrow>
          if length (filteredRooms s) = 0 then s\<lparr>chatList := Some NoConversations\<rparr>
          else s\<lparr>chatList := Some (Conversations (filteredRooms s))\<rparr>)"

definition handleSearch :: "string \<Rightarrow> state \<Rightarrow> state" where
  "handleSearch v s = renderChatList (s\<lparr>searchQuery := v\<rparr>)"

definition filterClick :: "string \<Rightarrow> state \<Rightarrow> state" where
  "filterClick f s = renderChatList (s\<lparr>filter_sel := f\<rparr>)"

definition loadChatRooms :: "state \<Rightarrow> state" where
  "loadChatRooms s =
     (if \<not> truthy (chatRoomsApiUrl s) then s
      else s\<lparr>pending := pending s @ [GetRooms]\<rparr>)"

definition room_of :: "api_room \<Rightarrow> room" where
  "room_of r =
     \<lparr>userId = user_id (other_user r), name = full_name (other_user r),
      room_email = email (other_user r), room_avatar = avatar (other_user r),
      lastMessage = last_message_content r, roomName = room_name r,
      unreadCount = unread_count r, isBot = is_bot_room r\<rparr>"

definition loadChatRooms_then :: "api_room list \<Rightarrow> int \<Rightarrow> state \<Rightarrow> state" where
  "loadChatRooms_then chat_rooms total_unread s =
     updateUnreadBadge total_unread (renderChatList (s\<lparr>chatRooms := map room_of chat_rooms\<rparr>))"

definition loadChatRooms_catch :: "state \<Rightarrow> state" where
  "loadChatRooms_catch s =
     (case chatList s of None \<Rightarrow> s | Some _ \<Rightarrow> s\<lparr>chatList := Some ListError\<rparr>)"

subsection \<open>Transport\<close>

text \<open>\<^verbatim>\<open>socket.close()\<close>: a connecting or open socket starts closing; otherwise nothing.\<close>

definition live :: "websocket \<Rightarrow> bool" where
  "live w = (readyState w = CONNECTING \<or> readyState w = OPEN)"

definition ws_close :: "nat \<Rightarrow> websocket list \<Rightarrow> websocket list" where
  "ws_close i ws =
     (if i < length ws \<and> live (ws ! i) then ws[i := (ws ! i)\<lparr>readyState := CLOSING\<rparr>] else ws)"

definition ws_send :: "nat \<Rightarrow> string \<Rightarrow> websocket list \<Rightarrow> websocket list" where
  "ws_send i text ws =
     (if i < length ws then ws[i := (ws ! i)\<lparr>outbox := outbox (ws ! i) @ [text]\<rparr>] else ws)"

text \<open>\<^verbatim>\<open>chatState.chatSocket && chatState.chatSocket.readyState === WebSocket.OPEN\<close>\<close>

definition socket_ready :: "state \<Rightarrow> bool" where
  "socket_ready s =
     (case chatSocket s of
        None \<Rightarrow> False
      | Some i \<Rightarrow> i < length (sockets s) \<and> readyState (sockets s ! i) = OPEN)"

text \<open>
  \<^verbatim>\<open>if (chatState.chatSocket) { chatState.chatSocket.close(); chatState.chatSocket = null; }\<close>,
  as \<^verbatim>\<open>closeChatWindow\<close>, \<^verbatim>\<open>showChatList\<close> and \<^verbatim>\<open>connectWebSocket\<close> each have it.
\<close>

definition closeSocket :: "state \<Rightarrow> state" where
  "closeSocket s =
     (case chatSocket s of
        None \<Rightarrow> s
      | Some i \<Rightarrow> s\<lparr>chatSocket := None, sockets := ws_close i (sockets s)\<rparr>)"

text \<open>
  A function of the script that can throw ends with the state it has reached and with
  whether it returned or threw; the caller goes on only after a return.
\<close>

datatype outcome = Returned state | Thrown state

fun state_of :: "outcome \<Rightarrow> state" where
  "state_of (Returned s) = s"
| "state_of (Thrown s) = s"

text \<open>
  \<^verbatim>\<open>new WebSocket(url)\<close> throws a \<^verbatim>\<open>SyntaxError\<close> when the URL has a fragment. The
  URL is the page's own protocol and host (left out here), the path of the channel, the
  room name and a slash: it has a fragment exactly when the room name contains \<^verbatim>\<open>#\<close>;
  any other character is kept or percent-encoded by the URL parser.
\<close>

definition hash_free :: "string \<Rightarrow> bool" where
  "hash_free rn = (CHR ''#'' \<notin> set rn)"

text \<open>
  Lines 488-496 when the constructor returns: a new socket, connecting, is stored in
  \<^verbatim>\<open>chatState.chatSocket\<close>.
\<close>

definition newWebSocket :: "string \<Rightarrow> state \<Rightarrow> state" where
  "newWebSocket rn s1 =
     (let wsPath = (if currentIsBot s1 then ''/ws/chat/bot/'' else ''/ws/chat/private/'')
      in s1\<lparr>chatSocket := Some (length (sockets s1)),
            sockets := sockets s1 @
              [\<lparr>wsUrl = wsPath @ rn @ ''/'', readyState = CONNECTING, outbox = []\<rparr>]\<rparr>)"

text \<open>
  \<^verbatim>\<open>connectWebSocket\<close>: the old socket is closed and forgotten first (lines 482-485);
  then the constructor of line 496 returns the new socket or throws, and nothing catches.
\<close>

definition connectWebSocket :: "string \<Rightarrow> state \<Rightarrow> outcome" where
  "connectWebSocket rn s =
     (let s1 = closeSocket s
      in if \<not> hash_free rn then Thrown s1 else Returned (newWebSocket rn s1))"

subsection \<open>Message pane\<close>

fun is_row :: "pane_item \<Rightarrow> bool" where
  "is_row (MessageRow sent content sender avatarUrl) = True"
| "is_row (Notice t) = False"

text \<open>\<^verbatim>\<open>querySelector('.text-center.text-muted')\<close> and \<^verbatim>\<open>remove()\<close>: the first notice goes.\<close>

fun remove_notice :: "pane_item list \<Rightarrow> pane_item list" where
  "remove_notice [] = []"
| "remove_notice (Notice t # xs) = xs"
| "remove_notice (x # xs) = x # remove_notice xs"

definition addMessageToChat ::
  "jsval \<Rightarrow> jsval \<Rightarrow> bool \<Rightarrow> jsval \<Rightarrow> jsval \<Rightarrow> state \<Rightarrow> state" where
  "addMessageToChat content senderName isSent senderId senderAvatar s =
     (case chatMessages s of
        None \<Rightarrow> s
      | Some items \<Rightarrow>
          (let avatarUrl =
                 (if \<not> truthy senderAvatar
                  then (if isSent then currentUserAvatar s else currentOtherUserAvatar s)
                  else senderAvatar)
           in s\<lparr>chatMessages :=
                  Some (remove_notice items @ [MessageRow isSent content senderName avatarUrl])\<rparr>))"

text \<open>
  The \<^verbatim>\<open>onmessage\<close> handler that \<^verbatim>\<open>connectWebSocket\<close> installs. \<open>None\<close> is a payload on
  which the \<^verbatim>\<open>try\<close> block throws (it is logged); \<^verbatim>\<open>isFromBot\<close> is computed and not used.
\<close>

definition onmessage :: "frame option \<Rightarrow> state \<Rightarrow> state" where
  "onmessage e s =
     (case e of
        None \<Rightarrow> s
      | Some data \<Rightarrow>
          (let isFromBot = truthy (is_bot data);
               isBotRoom = currentIsBot s
           in if truthy (sender_id data) \<and> (sender_id data \<noteq> currentUserId s \<or> isBotRoom)
              then addMessageToChat (message data) (js_or (username data) (JStr ''Bot'')) False
                     (sender_id data) (js_or (sender_avatar data) JNull) s
              else s))"

subsection \<open>History and read receipts\<close>

definition markMessagesAsRead :: "number \<Rightarrow> state \<Rightarrow> state" where
  "markMessagesAsRead otherUserId s = s\<lparr>pending := pending s @ [PostMarkRead otherUserId]\<rparr>"

text \<open>The \<^verbatim>\<open>then\<close> of \<^verbatim>\<open>markMessagesAsRead\<close>, on \<^verbatim>\<open>data.success\<close>; its \<^verbatim>\<open>catch\<close> only logs.\<close>

definition markMessagesAsRead_then :: "jsval \<Rightarrow> state \<Rightarrow> state" where
  "markMessagesAsRead_then success s = (if truthy success then loadChatRooms s else s)"

definition markMessagesAsRead_catch :: "state \<Rightarrow> state" where
  "markMessagesAsRead_catch s = s"

text \<open>The row that \<^verbatim>\<open>loadChatMessages\<close> renders for one record of the history.\<close>

definition history_row :: "state \<Rightarrow> hist_msg \<Rightarrow> pane_item" where
  "history_row s msg =
     (let isSent = (hist_sender_id msg = currentUserId s);
          avatarUrl =
            (if \<not> truthy (hist_sender_avatar msg)
             then (if isSent then currentUserAvatar s else currentOtherUserAvatar s)
             else hist_sender_avatar msg)
      in MessageRow isSent (hist_content msg) (hist_sender_name msg) avatarUrl)"

text \<open>
  The second \<^verbatim>\<open>then\<close> of \<^verbatim>\<open>loadChatMessages\<close> (lines 416-462), with the
  \<^verbatim>\<open>otherUserId\<close> it has captured, and its \<^verbatim>\<open>catch\<close>.
\<close>

definition loadChatMessages_then :: "number \<Rightarrow> hist_msg list option \<Rightarrow> state \<Rightarrow> state" where
  "loadChatMessages_then otherUserId messages s =
     (case chatMessages s of
        None \<Rightarrow> s
      | Some _ \<Rightarrow>
          (case messages of
             None \<Rightarrow> s\<lparr>chatMessages := Some [Notice ''No messages yet'']\<rparr>
           | Some ms \<Rightarrow>
               if length ms = 0 then s\<lparr>chatMessages := Some [Notice ''No messages yet'']\<rparr>
               else markMessagesAsRead otherUserId
                      (s\<lparr>chatMessages := Some (map (history_row s) ms)\<rparr>)))"

definition loadChatMessages_catch :: "string \<Rightarrow> state \<Rightarrow> state" where
  "loadChatMessages_catch err s =
     (case chatMessages s of
        None \<Rightarrow> s
      | Some _ \<Rightarrow> s\<lparr>chatMessages := Some [Notice (''Error loading messages: '' @ err)]\<rparr>)"

definition loadChatMessages :: "string \<Rightarrow> state \<Rightarrow> state" where
  "loadChatMessages rn s =
     (let parts = split_on CHR ''_'' rn
      in if length parts < 3
         then (case chatMessages s of
                 None \<Rightarrow> s
               | Some _ \<Rightarrow> s\<lparr>chatMessages := Some [Notice ''Error: Invalid chat room format'']\<rparr>)
         else s\<lparr>pending := pending s @ [GetMessages rn (otherUserId_of parts (currentUserId s))]\<rparr>)"

subsection \<open>Views\<close>

definition showChatList :: "state \<Rightarrow> state" where
  "showChatList s =
     closeSocket (s\<lparr>currentView := VList, currentRoom := None, currentOtherUserId := JNull,
                    currentOtherUserAvatar := JNull, currentIsBot := False\<rparr>)"

definition closeChatWindow :: "state \<Rightarrow> state" where
  "closeChatWindow s = showChatList (closeSocket (s\<lparr>isOpen := False\<rparr>))"

definition toggleChatWindow :: "state \<Rightarrow> state" where
  "toggleChatWindow s =
     (let s1 = s\<lparr>isOpen := \<not> isOpen s\<rparr>
      in if chatWindow s1 \<and> isOpen s1 then loadChatRooms s1 else s1)"

text \<open>
  \<^verbatim>\<open>window.openChatWidget(userId)\<close>, up to the request for the room list; the room is
  looked up and \<^verbatim>\<open>showChatDetail\<close> is called later, from a timer armed when the list
  has come back.
\<close>

definition openChatWidget :: "jsval \<Rightarrow> state \<Rightarrow> state" where
  "openChatWidget uid s =
     (if \<not> chatWindow s \<or> \<not> chatToggleBtn s then s
      else
        (let s1 = (if \<not> isOpen s then toggleChatWindow s else s)
         in if truthy uid then loadChatRooms s1 else s1))"

definition minimizeChatWindow :: "state \<Rightarrow> state" where
  "minimizeChatWindow s = s\<lparr>isMinimized := \<not> isMinimized s\<rparr>"

text \<open>
  \<^verbatim>\<open>showChatDetail(roomName, otherUser, isBot)\<close>; a room name that is null or empty and
  an \<^verbatim>\<open>otherUser\<close> that is null (\<open>None\<close>) are refused by the guard of line 235. The
  call of \<^verbatim>\<open>connectWebSocket\<close> is the last statement: if it throws, the state is the one
  reached by then.
\<close>

definition showChatDetail :: "string \<Rightarrow> otherUser option \<Rightarrow> bool \<Rightarrow> state \<Rightarrow> state" where
  "showChatDetail rn ou isBotArg s =
     (case ou of
        None \<Rightarrow> s
      | Some u \<Rightarrow>
          if rn = [] then s
          else
            (let s1 = s\<lparr>currentView := VDetail, currentRoom := Some rn,
                        currentOtherUserId := user_id u,
                        currentOtherUserAvatar := js_or (avatar u) JNull,
                        currentIsBot := isBotArg\<rparr>;
                 s2 = (case chatMessages s1 of
                         None \<Rightarrow> s1
                       | Some _ \<Rightarrow> s1\<lparr>chatMessages := Some [Notice ''Loading messages...'']\<rparr>);
                 s3 = loadChatMessages rn s2
             in state_of (connectWebSocket rn s3)))"

subsection \<open>Sending\<close>

text \<open>The callback of \<^verbatim>\<open>setTimeout(..., 500)\<close> in \<^verbatim>\<open>sendMessage\<close>, with its message.\<close>

definition sendMessage_retry :: "string \<Rightarrow> state \<Rightarrow> state" where
  "sendMessage_retry msg s =
     (case chatSocket s of
        None \<Rightarrow> s\<lparr>alerts := alerts s @ [''Unable to connect. Please try again.'']\<rparr>
      | Some i \<Rightarrow>
          if socket_ready s then s\<lparr>sockets := ws_send i msg (sockets s)\<rparr>
          else s\<lparr>alerts := alerts s @ [''Unable to connect. Please try again.'']\<rparr>)"

text \<open>
  The \<^verbatim>\<open>else\<close> branch of \<^verbatim>\<open>sendMessage\<close> (lines 598-613): reconnect, then arm the
  timer; a throw of the reconnect leaves the timer unarmed.
\<close>

definition sendMessage_reconnect :: "string \<Rightarrow> string \<Rightarrow> state \<Rightarrow> outcome" where
  "sendMessage_reconnect rn msg s1 =
     (case connectWebSocket rn s1 of
        Thrown s2 \<Rightarrow> Thrown s2
      | Returned s2 \<Rightarrow> Returned (s2\<lparr>timers := timers s2 @ [(500, msg)]\<rparr>))"

text \<open>
  \<^verbatim>\<open>sendMessage\<close>; the input field is cleared by the last statement (line 615), which
  a throw of the reconnect does not reach.
\<close>

definition sendMessage :: "state \<Rightarrow> state" where
  "sendMessage s =
     (case chatMessageInput s of
        None \<Rightarrow> s
      | Some v \<Rightarrow>
          (let msg = trim v
           in if msg = [] then s
              else
                (case currentRoom s of
                   None \<Rightarrow> s\<lparr>alerts := alerts s @ [''Please select a conversation'']\<rparr>
                 | Some rn \<Rightarrow>
                     if rn = [] then s\<lparr>alerts := alerts s @ [''Please select a conversation'']\<rparr>
                     else
                       (let s1 = addMessageToChat (JStr msg) (JStr ''You'') True
                                   (currentUserId s) JNull s;
                            s2 = (case chatSocket s1 of
                                    None \<Rightarrow> sendMessage_reconnect rn msg s1
                                  | Some i \<Rightarrow>
                                      if socket_ready s1
                                      then Returned (s1\<lparr>sockets := ws_send i msg (sockets s1)\<rparr>)
                                      else sendMessage_reconnect rn msg s1)
                        in (case s2 of
                              Thrown s3 \<Rightarrow> s3
                            | Returned s3 \<Rightarrow> s3\<lparr>chatMessageInput := Some []\<rparr>)))))"

section \<open>Events\<close>

text \<open>
  The page, as the script finds it when it starts: the globals it reads and the elements
  it looks up, with their first content.
\<close>

record page =
  window_currentUserId :: jsval
  window_currentUserAvatar :: jsval
  window_chatRoomsApiUrl :: jsval
  el_chatWindow :: bool
  el_chatToggleBtn :: bool
  el_chatMessages :: "pane_item list option"
  el_chatMessageInput :: "string option"
  el_chatList :: "list_pane option"
  el_unreadBadge :: "badge option"

text \<open>The literal of \<^verbatim>\<open>chatState\<close> (lines 7-21) on a page, nothing in flight.\<close>

definition chatState0 :: "page \<Rightarrow> state" where
  "chatState0 pg =
     \<lparr>isOpen = False, isMinimized = False, currentView = VList, currentRoom = None,
      currentUserId = JNull, currentUserAvatar = JNull, currentOtherUserId = JNull,
      currentOtherUserAvatar = JNull, currentIsBot = False, filter_sel = ''all'',
      searchQuery = [], chatRooms = [], chatSocket = None,
      sockets = [], pending = [], timers = [], alerts = [],
      chatRoomsApiUrl = window_chatRoomsApiUrl pg, chatWindow = el_chatWindow pg,
      chatToggleBtn = el_chatToggleBtn pg,
      chatMessages = el_chatMessages pg, chatMessageInput = el_chatMessageInput pg,
      chatList = el_chatList pg, unreadBadge = el_unreadBadge pg\<rparr>"

text \<open>The \<^verbatim>\<open>DOMContentLoaded\<close> listener (lines 24-35).\<close>

definition boot :: "page \<Rightarrow> state" where
  "boot pg =
     (let s = chatState0 pg
      in if window_currentUserId pg \<noteq> JUndefined
         then loadChatRooms
                (s\<lparr>currentUserId := window_currentUserId pg,
                   currentUserAvatar := js_or (window_currentUserAvatar pg) JNull\<rparr>)
         else s)"

text \<open>
  What can happen next: a user action (each runs the listener of the same name;
  \<open>ShowChatDetail\<close> is any call of \<^verbatim>\<open>showChatDetail\<close>, from a click on a list item or
  from the timer of \<^verbatim>\<open>openChatWidget\<close>; \<open>TypeText\<close> edits the input field), a retry timer firing, a
  reply to a request in flight, or a socket event from the network (a socket opens,
  closes, or delivers a payload while it is open).
\<close>

datatype event =
    ToggleChatWindow
  | OpenChatWidget jsval
  | CloseChatWindow
  | MinimizeChatWindow
  | ShowChatList
  | ShowChatDetail string "otherUser option" bool
  | HandleSearch string
  | FilterClick string
  | TypeText string
  | SendMessage
  | TimerFires nat
  | Reply nat reply
  | SocketOpens nat
  | SocketCloses nat
  | SocketMessage nat "frame option"

definition remove_nth :: "nat \<Rightarrow> 'a list \<Rightarrow> 'a list" where
  "remove_nth i xs = take i xs @ drop (Suc i) xs"

fun handle_reply :: "request \<Rightarrow> reply \<Rightarrow> state \<Rightarrow> state option" where
  "handle_reply GetRooms (RoomsData rs t) s = Some (loadChatRooms_then rs t s)"
| "handle_reply GetRooms (Failed err) s = Some (loadChatRooms_catch s)"
| "handle_reply (GetMessages rn oid) (MessagesData ms) s = Some (loadChatMessages_then oid ms s)"
| "handle_reply (GetMessages rn oid) (Failed err) s = Some (loadChatMessages_catch err s)"
| "handle_reply (PostMarkRead oid) (MarkReadData success) s = Some (markMessagesAsRead_then success s)"
| "handle_reply (PostMarkRead oid) (Failed err) s = Some (markMessagesAsRead_catch s)"
| "handle_reply _ _ s = None"

text \<open>One event; an event that cannot happen in the state (no such timer, request or
  socket, a reply of the wrong kind) leaves it as it is.\<close>

fun step :: "state \<Rightarrow> event \<Rightarrow> state" where
  "step s ToggleChatWindow = toggleChatWindow s"
| "step s (OpenChatWidget uid) = openChatWidget uid s"
| "step s CloseChatWindow = closeChatWindow s"
| "step s MinimizeChatWindow = minimizeChatWindow s"
| "step s ShowChatList = showChatList s"
| "step s (ShowChatDetail rn ou b) = showChatDetail rn ou b s"
| "step s (HandleSearch v) = handleSearch v s"
| "step s (FilterClick f) = filterClick f s"
| "step s (TypeText v) =
     (case chatMessageInput s of None \<Rightarrow> s | Some _ \<Rightarrow> s\<lparr>chatMessageInput := Some v\<rparr>)"
| "step s SendMessage = sendMessage s"
| "step s (TimerFires i) =
     (if i < length (timers s)
      then sendMessage_retry (snd (timers s ! i)) (s\<lparr>timers := remove_nth i (timers s)\<rparr>)
      else s)"
| "step s (Reply i r) =
     (if i < length (pending s)
      then (case handle_reply (pending s ! i) r (s\<lparr>pending := remove_nth i (pending s)\<rparr>) of
              None \<Rightarrow> s
            | Some s' \<Rightarrow> s')
      else s)"
| "step s (SocketOpens i) =
     (if i < length (sockets s) \<and> readyState (sockets s ! i) = CONNECTING
      then s\<lparr>sockets := (sockets s)[i := (sockets s ! i)\<lparr>readyState := OPEN\<rparr>]\<rparr>
      else s)"
| "step s (SocketCloses i) =
     (if i < length (sockets s)
      then s\<lparr>sockets := (sockets s)[i := (sockets s ! i)\<lparr>readyState := CLOSED\<rparr>]\<rparr>
      else s)"
| "step s (SocketMessage i e) =
     (if i < length (sockets s) \<and> readyState (sockets s ! i) = OPEN
      then onmessage e s
      else s)"

definition run :: "state \<Rightarrow> event list \<Rightarrow> state" where
  "run s evs = foldl step s evs"

section \<open>Example inputs\<close>

text \<open>A page of user 7 with every element present, and the counterpart Anna (user 42).\<close>

definition page7 :: page where
  "page7 =
     \<lparr>window_currentUserId = JNum 7, window_currentUserAvatar = JUndefined,
      window_chatRoomsApiUrl = JStr ''/chat/api/rooms/'', el_chatWindow = True,
      el_chatToggleBtn = True,
      el_chatMessages = Some [], el_chatMessageInput = Some [],
      el_chatList = Some NoConversations, el_unreadBadge = Some BadgeHidden\<rparr>"

definition anna :: otherUser where
  "anna = \<lparr>full_name = ''Anna'', user_id = JNum 42, email = JStr ''anna@example.org'',
            avatar = JNull\<rparr>"

text \<open>The same page for user 42, who shares a room with a user whose id is \<open>2^53 + 1\<close>.\<close>

definition page42 :: page where
  "page42 = page7\<lparr>window_currentUserId := JNum 42\<rparr>"

definition big_room :: string where
  "big_room = ''room_9007199254740993_42_x''"

text \<open>User 7 has opened the room with Anna and the socket has connected; the same
  with a bot room.\<close>

definition room_open :: state where
  "room_open = run (boot page7) [ShowChatDetail ''room_7_42_x'' (Some anna) False, SocketOpens 0]"

definition bot_room_open :: state where
  "bot_room_open = run (boot page7) [ShowChatDetail ''room_7_42_x'' (Some anna) True, SocketOpens 0]"

text \<open>Frames: from Anna, the echo of user 7's own message, and frames whose
  \<^verbatim>\<open>sender_id\<close> is absent or zero.\<close>

definition frame_from :: "jsval \<Rightarrow> frame" where
  "frame_from sid =
     \<lparr>sender_id = sid, message = JStr ''hello'', is_bot = JUndefined,
      username = JStr ''someone'', sender_avatar = JUndefined\<rparr>"

text \<open>Something typed into the input field: with no room open; blanks only; a message
  while the socket is open; a message while the socket is still connecting, and the state
  after sending it (the retry timer is armed).\<close>

definition no_room_typed :: state where
  "no_room_typed = run (boot page7) [TypeText ''hi'']"

definition blank_typed :: state where
  "blank_typed = run room_open [TypeText ''   '']"

definition ready_typed :: state where
  "ready_typed = run room_open [TypeText '' hi '']"

definition connecting_typed :: state where
  "connecting_typed =
     run (boot page7) [ShowChatDetail ''room_7_42_x'' (Some anna) False, TypeText ''hi'']"

definition retry_pending :: state where
  "retry_pending = sendMessage connecting_typed"

text \<open>
  The spec's words for the search: the display name contains the query as a substring,
  case ignored. Some window of the name, as long as the query, agrees with the query
  letter by letter up to case.
\<close>

definition same_ignoring_case :: "string \<Rightarrow> string \<Rightarrow> bool" where
  "same_ignoring_case a b = list_all2 (\<lambda>x y. lower_char x = lower_char y) a b"

definition contains_ignoring_case :: "string \<Rightarrow> string \<Rightarrow> bool" where
  "contains_ignoring_case n q =
     list_ex (\<lambda>i. same_ignoring_case (take (length q) (drop i n)) q) [0..<Suc (length n)]"

text \<open>A directory of two rooms, Anna's with three unread messages; then the filter set to
  \<^verbatim>\<open>unread\<close>, or the query \<^verbatim>\<open>ann\<close> typed into the search field.\<close>

definition api_anna :: api_room where
  "api_anna = \<lparr>other_user = anna, last_message_content = JStr ''see you'',
                room_name = ''room_7_42_x'', unread_count = 3, is_bot_room = False\<rparr>"

definition api_bob :: api_room where
  "api_bob = \<lparr>other_user = \<lparr>full_name = ''Bob'', user_id = JNum 43, email = JStr ''bob@example.org'',
                               avatar = JNull\<rparr>,
               last_message_content = JStr ''ok'',
               room_name = ''room_7_43_x'', unread_count = 0, is_bot_room = False\<rparr>"

definition two_rooms :: state where
  "two_rooms = run (boot page7) [Reply 0 (RoomsData [api_anna, api_bob] 3)]"

definition unread_only :: state where
  "unread_only = run two_rooms [FilterClick ''unread'']"

definition search_ann :: state where
  "search_ann = run two_rooms [HandleSearch ''ann'']"

text \<open>Bob (user 43); a room name with no underscore, opened; a switch from Anna's room to
  Bob's with both history loads in flight; a record of Anna's history, and Anna's room
  with that history shown.\<close>

definition bob :: otherUser where
  "bob = \<lparr>full_name = ''Bob'', user_id = JNum 43, email = JStr ''bob@example.org'', avatar = JNull\<rparr>"

definition lobby_opened :: state where
  "lobby_opened = showChatDetail ''lobby'' (Some anna) False (boot page7)"

definition switched :: state where
  "switched = run (boot page7)
     [ShowChatDetail ''room_7_42_x'' (Some anna) False, ShowChatDetail ''room_7_43_x'' (Some bob) False]"

definition anna_msg :: hist_msg where
  "anna_msg = \<lparr>hist_sender_id = JNum 42, hist_sender_name = JStr ''Anna'',
                hist_sender_avatar = JNull, hist_content = JStr ''for user 7, from Anna''\<rparr>"

definition history_shown :: state where
  "history_shown = step room_open (Reply 1 (MessagesData (Some [anna_msg])))"

text \<open>A message typed with Anna's history on the pane; the retry of a message sent while
  connecting, with Anna's history arriving before the timer fires; a room whose name
  holds \<^verbatim>\<open>#\<close>, opened; the widget hidden by the toggle button with a room open.\<close>

definition history_typed :: state where
  "history_typed = run history_shown [TypeText ''hi'']"

definition retry_after_history :: state where
  "retry_after_history =
     run retry_pending [Reply 1 (MessagesData (Some [anna_msg])), TimerFires 0]"

definition hash_opened :: state where
  "hash_opened = run (boot page7) [ShowChatDetail ''room_7_42_#'' (Some anna) False]"

text \<open>The retry pending with the new socket open by then; a message typed in the room
  whose name holds \<^verbatim>\<open>#\<close>; Anna's room opened on a page without the message pane.\<close>

definition retry_opened :: state where
  "retry_opened = run retry_pending [SocketOpens 1]"

definition hash_typed :: state where
  "hash_typed = run hash_opened [TypeText ''hi'']"

definition no_pane_open :: state where
  "no_pane_open =
     run (boot (page7\<lparr>el_chatMessages := None\<rparr>))
       [ShowChatDetail ''room_7_42_x'' (Some anna) False]"

definition toggled_shut :: state where
  "toggled_shut =
     run (boot page7)
       [ToggleChatWindow, ShowChatDetail ''room_7_42_x'' (Some anna) False, SocketOpens 0,
        ToggleChatWindow]"

text \<open>
  For the transport invariant: a room is selected when \<^verbatim>\<open>chatState.currentRoom\<close> is
  truthy; the sockets are held exclusively when every socket that is connecting or open
  is the one \<^verbatim>\<open>chatState.chatSocket\<close> refers to. \<open>transport_inv\<close> holds after every
  sequence of events; \<open>connected_inv\<close> adds what holds as long as no room name with a
  \<^verbatim>\<open>#\<close> is opened (\<open>plain_event\<close>). \<open>open_transports\<close> counts the sockets that are
  connecting or open, and \<open>core\<close> is the part of the state the invariants read.
\<close>

definition room_selected :: "state \<Rightarrow> bool" where
  "room_selected s = (case currentRoom s of None \<Rightarrow> False | Some rn \<Rightarrow> rn \<noteq> [])"

definition exclusive :: "state \<Rightarrow> bool" where
  "exclusive s = (\<forall>j < length (sockets s). live (sockets s ! j) \<longrightarrow> chatSocket s = Some j)"

definition transport_inv :: "state \<Rightarrow> bool" where
  "transport_inv s =
     ((chatSocket s \<noteq> None \<longrightarrow> currentView s = VDetail) \<and>
      room_selected s = (currentView s = VDetail) \<and>
      (case chatSocket s of None \<Rightarrow> True | Some i \<Rightarrow> i < length (sockets s)) \<and>
      exclusive s)"

definition connected_inv :: "state \<Rightarrow> bool" where
  "connected_inv s =
     ((currentView s = VDetail \<longrightarrow> chatSocket s \<noteq> None) \<and>
      (case currentRoom s of None \<Rightarrow> True | Some rn \<Rightarrow> hash_free rn))"

fun plain_event :: "event \<Rightarrow> bool" where
  "plain_event (ShowChatDetail rn ou b) = hash_free rn"
| "plain_event e = True"

definition open_transports :: "state \<Rightarrow> nat" where
  "open_transports s = length (filter live (sockets s))"

definition core :: "state \<Rightarrow> view \<times> string option \<times> nat option \<times> bool list" where
  "core s = (currentView s, currentRoom s, chatSocket s, map live (sockets s))"

section \<open>Decimal numerals\<close>

lemma dec_digit_chars:
  "\<forall>c \<in> set (dec n). 48 \<le> (of_char c :: nat) \<and> (of_char c :: nat) \<le> 57"
proof (induction n rule: dec.induct)
  case (1 n)
  show ?case
  proof (cases "n < 10")
    case True
    then show ?thesis by (subst dec.simps) simp
  next
    case False
    have "n mod 10 < 10" by simp
    with False 1 show ?thesis by (subst dec.simps) (auto simp: Ball_def)
  qed
qed

lemma dec_not_Nil: "dec n \<noteq> []"
  by (subst dec.simps) simp

lemma digit_val_decimal:
  "48 \<le> (of_char c :: nat) \<Longrightarrow> (of_char c :: nat) \<le> 57 \<Longrightarrow>
   digit_val c = Some ((of_char c :: nat) - 48)"
  by (simp add: digit_val_def)

lemma digits_value_snoc:
  "digits_value R (ds @ [c]) =
     (case digit_val c of Some d \<Rightarrow> digits_value R ds * R + d | None \<Rightarrow> digits_value R ds)"
  by (simp add: digits_value_def split: option.split)

lemma digits_value_dec: "digits_value 10 (dec n) = n"
proof (induction n rule: dec.induct)
  case (1 n)
  show ?case
  proof (cases "n < 10")
    case True
    then show ?thesis
      by (subst dec.simps) (simp add: digits_value_def digit_val_def)
  next
    case False
    have m: "n mod 10 < 10" by simp
    have "digit_val (char_of (48 + n mod 10)) = Some (n mod 10)"
      using m by (simp add: digit_val_def Let_def)
    with False 1 show ?thesis
      by (subst dec.simps) (simp add: digits_value_snoc)
  qed
qed

lemma dec_all_digits: "\<forall>c \<in> set (dec n). is_digit_in 10 c"
  using dec_digit_chars [of n] by (auto simp: is_digit_in_def digit_val_decimal)

lemma dec_plain:
  "\<forall>c \<in> set (dec n). \<not> is_ws c \<and> c \<noteq> CHR ''-'' \<and> c \<noteq> CHR ''+'' \<and> c \<noteq> CHR ''x'' \<and> c \<noteq> CHR ''X''"
  using dec_digit_chars [of n] by (auto simp: is_ws_def)

lemma bit_length_le: "bit_length n \<le> k \<longleftrightarrow> n < 2 ^ k"
proof (induction k arbitrary: n)
  case 0
  show ?case by (subst bit_length.simps) simp
next
  case (Suc k)
  have "bit_length n \<le> Suc k \<longleftrightarrow> n = 0 \<or> bit_length (n div 2) \<le> k"
    by (subst bit_length.simps) simp
  also have "\<dots> \<longleftrightarrow> n = 0 \<or> n div 2 < 2 ^ k" by (simp add: Suc.IH)
  also have "\<dots> \<longleftrightarrow> n < 2 ^ Suc k" by auto
  finally show ?case .
qed

text \<open>\<^verbatim>\<open>parseInt\<close> reads a decimal numeral below \<open>2^53\<close> back.\<close>

lemma parseInt_dec:
  assumes "n < 2 ^ 53"
  shows "parseInt (dec n) = Finite (int n)"
proof -
  obtain a r where d: "dec n = a # r"
    using dec_not_Nil [of n] by (cases "dec n") auto
  have a: "\<not> is_ws a" "a \<noteq> CHR ''-''" "a \<noteq> CHR ''+''"
    using dec_plain [of n] d by auto
  have s1: "dropWhile is_ws (dec n) = dec n"
    using a d by simp
  have neg: "(case dec n of c # _ \<Rightarrow> c = CHR ''-'' | [] \<Rightarrow> False) = False"
    using a d by simp
  have s2: "(case dec n of c # r \<Rightarrow> if c = CHR ''-'' \<or> c = CHR ''+'' then r else dec n
             | [] \<Rightarrow> dec n) = dec n"
    using a d by simp
  have nohex: "(case dec n of a # b # _ \<Rightarrow> a = CHR ''0'' \<and> (b = CHR ''x'' \<or> b = CHR ''X'')
                | _ \<Rightarrow> False) = False"
    using dec_plain [of n] by (auto split: list.splits)
  have tw: "takeWhile (is_digit_in 10) (dec n) = dec n"
    using dec_all_digits [of n] by (simp add: takeWhile_eq_all_conv)
  have td: "to_double n = Some n"
    using assms by (simp add: to_double_def bit_length_le)
  show ?thesis
    unfolding parseInt_def Let_def s1 neg s2 nohex
    by (simp add: tw dec_not_Nil digits_value_dec td)
qed

text \<open>Above \<open>2^53\<close> the numeral is rounded: \<open>2^53 + 1\<close> reads as \<open>2^53\<close>.\<close>

lemma bit_length_big:
  "bit_length 9007199254740993 = 54" "bit_length 9007199254740992 = 54"
  by (simp_all add: bit_length.simps)

lemma to_double_rounds: "to_double 9007199254740993 = Some 9007199254740992"
  by (simp add: to_double_def bit_length_big)

lemma digits_value_big: "digits_value 10 ''9007199254740993'' = 9007199254740993"
  by (simp add: digits_value_def digit_val_def)

lemma parseInt_rounds: "parseInt ''9007199254740993'' = Finite 9007199254740992"
  by (simp add: parseInt_def is_ws_def is_digit_in_def digit_val_def digits_value_big
        to_double_rounds)

lemma dec_7: "dec 7 = ''7''"
  by code_simp

lemma dec_42: "dec 42 = ''42''"
  by code_simp

section \<open>Counterpart resolution\<close>

lemma big_room_facts:
  "split_on CHR ''_'' big_room = [''room'', ''9007199254740993'', ''42'', ''x'']"
  "currentUserId (boot page42) = JNum 42"
  "pending (boot page42) = [GetRooms]"
  "parseInt ''42'' = Finite 42"
  by code_simp+

text \<open>
  Claim C5, as stated, fails for ids that a JavaScript number does not hold exactly: in
  the room of the users \<open>2^53 + 1\<close> and 42, opened by user 42, the history requested is
  that of \<open>2^53\<close>, which is neither participant.
\<close>

theorem counterpart_resolution_counterexample:
  "split_on CHR ''_'' big_room = [''room'', ''9007199254740993'', ''42'', ''x''] \<and>
   currentUserId (boot page42) = JNum 42 \<and>
   pending (loadChatMessages big_room (boot page42)) =
     [GetRooms, GetMessages big_room (Finite 9007199254740992)]"
  by (simp add: loadChatMessages_def otherUserId_of_def strict_eq_num_def big_room_facts
        parseInt_rounds)

text \<open>
  Claim C5, amended. For a room name whose parts 1 and 2 (after splitting at underscores)
  are the decimal ids \<open>a\<close> and \<open>b\<close> of the two participants, both below \<open>2^53\<close>, the current
  user being one of them, \<^verbatim>\<open>loadChatMessages\<close> requests the history of the other one:
  the part that is not the current user's id. The room name \<^verbatim>\<open>room_7_42_x\<close> for user 7
  resolves to 42.
\<close>

theorem counterpart_resolution:
  assumes parts: "split_on CHR ''_'' rn = p0 # dec a # dec b # rest"
    and exact: "a < 2 ^ 53" "b < 2 ^ 53"
    and distinct: "a \<noteq> b"
    and mine: "currentUserId s = JNum (int a) \<or> currentUserId s = JNum (int b)"
  shows "let other = (if currentUserId s = JNum (int a) then b else a)
         in loadChatMessages rn s =
              s\<lparr>pending := pending s @ [GetMessages rn (Finite (int other))]\<rparr>
            \<and> JNum (int other) \<noteq> currentUserId s"
proof -
  have "otherUserId_of (split_on CHR ''_'' rn) (currentUserId s) =
          Finite (int (if currentUserId s = JNum (int a) then b else a))"
    using distinct mine
    by (auto simp: parts otherUserId_of_def parseInt_dec [OF exact(1)] parseInt_dec [OF exact(2)]
          strict_eq_num_def)
  then show ?thesis
    using distinct mine by (auto simp: loadChatMessages_def parts Let_def)
qed

theorem counterpart_resolution_witness:
  "split_on CHR ''_'' ''room_7_42_x'' = ''room'' # dec 7 # dec 42 # [''x''] \<and>
   (7::nat) < 2 ^ 53 \<and> (42::nat) < 2 ^ 53 \<and>
   (7::nat) \<noteq> 42 \<and>
   currentUserId (boot page7) = JNum (int 7) \<and>
   pending (loadChatMessages ''room_7_42_x'' (boot page7)) =
     [GetRooms, GetMessages ''room_7_42_x'' (Finite 42)]"
proof -
  have p: "split_on CHR ''_'' ''room_7_42_x'' = ''room'' # dec 7 # dec 42 # [''x'']"
    by (simp add: dec_7 dec_42)
  have c: "currentUserId (boot page7) = JNum (int 7)"
    by (simp add: boot_def page7_def chatState0_def loadChatRooms_def)
  have d: "(7::nat) \<noteq> 42" by simp
  have e: "(7::nat) < 2 ^ 53" "(42::nat) < 2 ^ 53" by simp_all
  show ?thesis
    using counterpart_resolution [OF p e d disjI1 [OF c]] p c
    by (simp add: boot_def page7_def chatState0_def loadChatRooms_def)
qed

section \<open>The delivery filter\<close>

lemma room_open_facts:
  "currentUserId room_open = JNum 7" "\<not> currentIsBot room_open"
  "onmessage (Some (frame_from (JNum 42))) room_open \<noteq> room_open"
  by code_simp+

lemma bot_room_open_facts:
  "currentUserId bot_room_open = JNum 7" "currentIsBot bot_room_open"
  "onmessage (Some (frame_from (JNum 7))) bot_room_open \<noteq> bot_room_open"
  by code_simp+

text \<open>
  Claim C1. A payload received on a socket changes the state (a message row is appended
  to the pane) only if it parses to a frame whose \<^verbatim>\<open>sender_id\<close> differs from the
  current user's id or the open room is a bot room; both for the handler and for the
  socket event that runs it. A frame with the current user's own id in a room that is
  not a bot room changes nothing.
\<close>

theorem delivery_rule:
  "(onmessage e s \<noteq> s \<longrightarrow>
      (\<exists>data. e = Some data \<and> (sender_id data \<noteq> currentUserId s \<or> currentIsBot s))) \<and>
   (step s (SocketMessage i e) \<noteq> s \<longrightarrow>
      (\<exists>data. e = Some data \<and> (sender_id data \<noteq> currentUserId s \<or> currentIsBot s))) \<and>
   (sender_id data = currentUserId s \<and> \<not> currentIsBot s \<longrightarrow>
      onmessage (Some data) s = s \<and> step s (SocketMessage i (Some data)) = s)"
  by (auto simp: onmessage_def Let_def split: option.splits)

theorem delivery_rule_witness:
  "onmessage (Some (frame_from (JNum 42))) room_open \<noteq> room_open \<and>
   sender_id (frame_from (JNum 42)) \<noteq> currentUserId room_open \<and>
   sender_id (frame_from (JNum 7)) = currentUserId room_open \<and>
   \<not> currentIsBot room_open \<and>
   onmessage (Some (frame_from (JNum 7))) room_open = room_open \<and>
   step room_open (SocketMessage 0 (Some (frame_from (JNum 7)))) = room_open"
  using delivery_rule [of "Some (frame_from (JNum 42))" room_open 0 "frame_from (JNum 7)"]
    room_open_facts
  by (simp add: frame_from_def)

text \<open>
  Claim C10. A frame whose \<^verbatim>\<open>sender_id\<close> is absent (undefined), null, zero, the empty
  string or false is never surfaced, whatever the room: the state is unchanged, in bot
  rooms too.
\<close>

theorem falsy_sender_dropped:
  assumes "sender_id data \<in> {JUndefined, JNull, JNum 0, JStr [], JBool False}"
  shows "onmessage (Some data) s = s \<and> step s (SocketMessage i (Some data)) = s"
  using assms by (auto simp: onmessage_def)

theorem falsy_sender_dropped_witness:
  "sender_id (frame_from (JNum 0)) \<in> {JUndefined, JNull, JNum 0, JStr [], JBool False} \<and>
   currentIsBot bot_room_open \<and>
   onmessage (Some (frame_from (JNum 0))) bot_room_open = bot_room_open \<and>
   step bot_room_open (SocketMessage 0 (Some (frame_from (JNum 0)))) = bot_room_open"
proof -
  have h: "sender_id (frame_from (JNum 0)) \<in> {JUndefined, JNull, JNum 0, JStr [], JBool False}"
    by (simp add: frame_from_def)
  show ?thesis
    using falsy_sender_dropped [OF h, of bot_room_open 0] h bot_room_open_facts by simp
qed

section \<open>Sending\<close>

lemma remove_notice_rows: "filter is_row (remove_notice items) = filter is_row items"
  by (induction items rule: remove_notice.induct) simp_all

lemma remove_notice_all_rows: "\<forall>x \<in> set items. is_row x \<Longrightarrow> remove_notice items = items"
  by (induction items rule: remove_notice.induct) simp_all

lemma addMessageToChat_pane:
  "chatMessages s = Some items \<Longrightarrow>
   chatMessages (addMessageToChat c n True sid JNull s) =
     Some (remove_notice items @ [MessageRow True c n (currentUserAvatar s)])"
  by (simp add: addMessageToChat_def)

lemma addMessageToChat_frame:
  "chatSocket (addMessageToChat c n b sid a s) = chatSocket s"
  "sockets (addMessageToChat c n b sid a s) = sockets s"
  "timers (addMessageToChat c n b sid a s) = timers s"
  "alerts (addMessageToChat c n b sid a s) = alerts s"
  "pending (addMessageToChat c n b sid a s) = pending s"
  "currentRoom (addMessageToChat c n b sid a s) = currentRoom s"
  "currentView (addMessageToChat c n b sid a s) = currentView s"
  "currentIsBot (addMessageToChat c n b sid a s) = currentIsBot s"
  "socket_ready (addMessageToChat c n b sid a s) = socket_ready s"
  by (simp_all add: addMessageToChat_def socket_ready_def Let_def split: option.splits)

lemma closeSocket_frame:
  "timers (closeSocket s) = timers s" "alerts (closeSocket s) = alerts s"
  "pending (closeSocket s) = pending s" "chatMessages (closeSocket s) = chatMessages s"
  "length (sockets (closeSocket s)) = length (sockets s)"
  "currentIsBot (closeSocket s) = currentIsBot s"
  "currentView (closeSocket s) = currentView s"
  "currentRoom (closeSocket s) = currentRoom s"
  "chatSocket (closeSocket s) = None"
  by (simp_all add: closeSocket_def ws_close_def split: option.splits)

lemma closeSocket_outbox:
  "j < length (sockets s) \<Longrightarrow> outbox (sockets (closeSocket s) ! j) = outbox (sockets s ! j)"
  by (simp add: closeSocket_def ws_close_def nth_list_update split: option.splits)

lemma newWebSocket_frame:
  "timers (newWebSocket rn s) = timers s" "alerts (newWebSocket rn s) = alerts s"
  "pending (newWebSocket rn s) = pending s"
  "chatMessages (newWebSocket rn s) = chatMessages s"
  "chatMessageInput (newWebSocket rn s) = chatMessageInput s"
  "currentView (newWebSocket rn s) = currentView s"
  "currentRoom (newWebSocket rn s) = currentRoom s"
  "chatSocket (newWebSocket rn s) = Some (length (sockets s))"
  "sockets (newWebSocket rn s) =
     sockets s @
       [\<lparr>wsUrl = (if currentIsBot s then ''/ws/chat/bot/'' else ''/ws/chat/private/'') @ rn @ ''/'',
         readyState = CONNECTING, outbox = []\<rparr>]"
  by (simp_all add: newWebSocket_def Let_def)

text \<open>The state after \<^verbatim>\<open>connectWebSocket\<close>, when it returns and when it throws.\<close>

lemma connectWebSocket_returns:
  "hash_free rn \<Longrightarrow> connectWebSocket rn s = Returned (newWebSocket rn (closeSocket s))"
  by (simp add: connectWebSocket_def)

lemma connectWebSocket_throws:
  "\<not> hash_free rn \<Longrightarrow> connectWebSocket rn s = Thrown (closeSocket s)"
  by (simp add: connectWebSocket_def)

lemma connectWebSocket_pane:
  "chatMessages (state_of (connectWebSocket rn s)) = chatMessages s"
  by (cases "hash_free rn")
     (simp_all add: connectWebSocket_returns connectWebSocket_throws newWebSocket_frame
        closeSocket_frame)

lemma connected_frame:
  assumes "hash_free rn"
  shows "timers (state_of (connectWebSocket rn s)) = timers s"
    "alerts (state_of (connectWebSocket rn s)) = alerts s"
    "pending (state_of (connectWebSocket rn s)) = pending s"
    "currentView (state_of (connectWebSocket rn s)) = currentView s"
    "currentRoom (state_of (connectWebSocket rn s)) = currentRoom s"
    "chatSocket (state_of (connectWebSocket rn s)) = Some (length (sockets s))"
    "length (sockets (state_of (connectWebSocket rn s))) = Suc (length (sockets s))"
  by (simp_all add: connectWebSocket_returns [OF assms] newWebSocket_frame closeSocket_frame)

lemma connected_new:
  assumes "hash_free rn" and "n = length (sockets s)"
  shows "sockets (state_of (connectWebSocket rn s)) ! n =
     \<lparr>wsUrl = (if currentIsBot s then ''/ws/chat/bot/'' else ''/ws/chat/private/'') @ rn @ ''/'',
      readyState = CONNECTING, outbox = []\<rparr>"
  using assms(2)
  by (simp add: connectWebSocket_returns [OF assms(1)] newWebSocket_frame closeSocket_frame
        nth_append)

lemma connected_outbox:
  assumes "hash_free rn" and "j < length (sockets s)"
  shows "outbox (sockets (state_of (connectWebSocket rn s)) ! j) = outbox (sockets s ! j)"
  using assms(2)
  by (simp add: connectWebSocket_returns [OF assms(1)] newWebSocket_frame closeSocket_frame
        closeSocket_outbox nth_append)

lemma sendMessage_retry_not_ready:
  "\<not> socket_ready t \<Longrightarrow>
   sendMessage_retry m t = t\<lparr>alerts := alerts t @ [''Unable to connect. Please try again.'']\<rparr>"
  by (simp add: sendMessage_retry_def split: option.splits)

lemma sendMessage_retry_ready:
  "chatSocket t = Some i \<Longrightarrow> socket_ready t \<Longrightarrow>
   sendMessage_retry m t = t\<lparr>sockets := ws_send i m (sockets t)\<rparr>"
  by (simp add: sendMessage_retry_def)

lemma socket_ready_timers [simp]: "socket_ready (t\<lparr>timers := x\<rparr>) = socket_ready t"
  by (simp add: socket_ready_def split: option.splits)

text \<open>The three ways \<^verbatim>\<open>sendMessage\<close> ends once the row is on the pane.\<close>

lemma sendMessage_ready:
  assumes "chatMessageInput s = Some v" and "trim v \<noteq> []"
    and "currentRoom s = Some rn" and "rn \<noteq> []"
    and "chatSocket s = Some i" and "socket_ready s"
    and "s1 = addMessageToChat (JStr (trim v)) (JStr ''You'') True (currentUserId s) JNull s"
  shows "sendMessage s =
           s1\<lparr>sockets := ws_send i (trim v) (sockets s1), chatMessageInput := Some []\<rparr>"
  using assms by (simp add: sendMessage_def Let_def addMessageToChat_frame)

lemma sendMessage_reconnects:
  assumes "chatMessageInput s = Some v" and "trim v \<noteq> []"
    and "currentRoom s = Some rn" and "rn \<noteq> []"
    and "\<not> socket_ready s" and "hash_free rn"
    and "s1 = addMessageToChat (JStr (trim v)) (JStr ''You'') True (currentUserId s) JNull s"
  shows "sendMessage s =
           (state_of (connectWebSocket rn s1))
             \<lparr>timers := timers s1 @ [(500, trim v)], chatMessageInput := Some []\<rparr>"
  using assms
  by (simp add: sendMessage_def Let_def addMessageToChat_frame sendMessage_reconnect_def
        connectWebSocket_returns newWebSocket_frame closeSocket_frame split: option.splits)

lemma sendMessage_throws:
  assumes "chatMessageInput s = Some v" and "trim v \<noteq> []"
    and "currentRoom s = Some rn" and "rn \<noteq> []"
    and "\<not> socket_ready s" and "\<not> hash_free rn"
    and "s1 = addMessageToChat (JStr (trim v)) (JStr ''You'') True (currentUserId s) JNull s"
  shows "sendMessage s = state_of (connectWebSocket rn s1)"
  using assms
  by (simp add: sendMessage_def Let_def addMessageToChat_frame sendMessage_reconnect_def
        connectWebSocket_throws split: option.splits)

lemma sendMessage_pane:
  assumes "chatMessageInput s = Some v" and "trim v \<noteq> []"
    and "currentRoom s = Some rn" and "rn \<noteq> []"
  shows "chatMessages (sendMessage s) =
     chatMessages (addMessageToChat (JStr (trim v)) (JStr ''You'') True (currentUserId s) JNull s)"
proof (cases "socket_ready s")
  case True
  then obtain i where i: "chatSocket s = Some i"
    by (auto simp: socket_ready_def split: option.splits)
  show ?thesis
    by (simp add: sendMessage_ready [OF assms i True refl])
next
  case False
  show ?thesis
  proof (cases "hash_free rn")
    case True
    show ?thesis
      by (simp add: sendMessage_reconnects [OF assms False True refl] connectWebSocket_pane)
  next
    case h: False
    show ?thesis
      by (simp add: sendMessage_throws [OF assms False h refl] connectWebSocket_pane)
  qed
qed

lemma history_row_pending [simp]: "history_row (s\<lparr>pending := x\<rparr>) = history_row s"
  by (rule ext) (simp add: history_row_def Let_def)

lemma loadChatMessages_then_rows:
  "chatMessages s \<noteq> None \<Longrightarrow> ms \<noteq> [] \<Longrightarrow>
   loadChatMessages_then oid (Some ms) s =
     s\<lparr>chatMessages := Some (map (history_row s) ms), pending := pending s @ [PostMarkRead oid]\<rparr>"
  by (auto simp: loadChatMessages_then_def markMessagesAsRead_def)

lemma no_room_typed_facts:
  "chatMessageInput no_room_typed = Some ''hi''" "trim ''hi'' = ''hi''"
  "currentRoom no_room_typed = None"
  by code_simp+

lemma blank_typed_facts:
  "chatMessageInput blank_typed = Some ''   ''" "trim ''   '' = []"
  by code_simp+

lemma ready_typed_facts:
  "chatMessageInput ready_typed = Some '' hi ''" "trim '' hi '' = ''hi''"
  "currentRoom ready_typed = Some ''room_7_42_x''"
  "chatSocket ready_typed = Some 0" "socket_ready ready_typed"
  "chatMessages ready_typed = Some [Notice ''Loading messages...'']"
  "outbox (sockets ready_typed ! 0) = []"
  "currentUserAvatar ready_typed = JNull"
  by code_simp+

lemma connecting_typed_facts:
  "chatMessageInput connecting_typed = Some ''hi''" "trim ''hi'' \<noteq> []" "trim ''hi'' = ''hi''"
  "currentRoom connecting_typed = Some ''room_7_42_x''" "''room_7_42_x'' \<noteq> []"
  "\<not> socket_ready connecting_typed" "timers connecting_typed = []"
  "alerts connecting_typed = []" "length (sockets connecting_typed) = 1"
  "chatMessages connecting_typed = Some [Notice ''Loading messages...'']"
  "currentUserAvatar connecting_typed = JNull"
  by code_simp+

lemma retry_pending_facts:
  "\<not> socket_ready retry_pending" "snd (timers retry_pending ! 0) = ''hi''"
  "length (timers retry_pending) = 1"
  by code_simp+

lemma history_typed_facts:
  "chatMessageInput history_typed = Some ''hi''"
  "currentRoom history_typed = Some ''room_7_42_x''"
  "chatSocket history_typed = Some 0" "socket_ready history_typed"
  "chatMessages history_typed =
     Some [MessageRow False (JStr ''for user 7, from Anna'') (JStr ''Anna'') JNull]"
  "currentUserAvatar history_typed = JNull"
  by code_simp+

text \<open>
  Claim C4. With a text in the input field: if it trims to the empty string,
  \<^verbatim>\<open>sendMessage\<close> changes nothing; if it does not and no room is active, the only
  change is the alert asking to select a conversation (no message pane, socket, timer or
  request is touched); otherwise the optimistic row is appended to the pane (the first
  notice, if any, is taken away, every row already shown is kept, and the new row comes
  last) and the state with the row is the one handed to the transport: the open socket
  sends the text, or the socket is reconnected and, unless the reconnect throws, the retry
  timer is armed.
\<close>

theorem sendMessage_cases:
  assumes inp: "chatMessageInput s = Some v"
  shows
   "(trim v = [] \<longrightarrow> sendMessage s = s) \<and>
    (trim v \<noteq> [] \<and> (currentRoom s = None \<or> currentRoom s = Some []) \<longrightarrow>
       sendMessage s = s\<lparr>alerts := alerts s @ [''Please select a conversation'']\<rparr>) \<and>
    (trim v \<noteq> [] \<and> currentRoom s = Some rn \<and> rn \<noteq> [] \<longrightarrow>
       (let s1 = addMessageToChat (JStr (trim v)) (JStr ''You'') True (currentUserId s) JNull s;
            row = MessageRow True (JStr (trim v)) (JStr ''You'') (currentUserAvatar s)
        in (\<forall>items. chatMessages s = Some items \<longrightarrow>
              chatMessages s1 = Some (remove_notice items @ [row]) \<and>
              chatMessages (sendMessage s) = chatMessages s1 \<and>
              filter is_row (remove_notice items @ [row]) = filter is_row items @ [row] \<and>
              ((\<forall>x \<in> set items. is_row x) \<longrightarrow>
                 chatMessages (sendMessage s) = Some (items @ [row]))) \<and>
           (\<forall>i. chatSocket s = Some i \<and> socket_ready s \<longrightarrow>
              s1\<lparr>sockets := ws_send i (trim v) (sockets s1), chatMessageInput := Some []\<rparr> =
                sendMessage s \<and>
              outbox (sockets (sendMessage s) ! i) = outbox (sockets s ! i) @ [trim v]) \<and>
           (\<not> socket_ready s \<and> hash_free rn \<longrightarrow>
              (state_of (connectWebSocket rn s1))
                \<lparr>timers := timers s1 @ [(500, trim v)], chatMessageInput := Some []\<rparr> =
                sendMessage s) \<and>
           (\<not> socket_ready s \<and> \<not> hash_free rn \<longrightarrow>
              state_of (connectWebSocket rn s1) = sendMessage s)))"
proof (intro conjI impI)
  assume "trim v = []"
  then show "sendMessage s = s" by (simp add: sendMessage_def inp)
next
  assume "trim v \<noteq> [] \<and> (currentRoom s = None \<or> currentRoom s = Some [])"
  then show "sendMessage s = s\<lparr>alerts := alerts s @ [''Please select a conversation'']\<rparr>"
    by (auto simp: sendMessage_def inp)
next
  assume a: "trim v \<noteq> [] \<and> currentRoom s = Some rn \<and> rn \<noteq> []"
  then have nb: "trim v \<noteq> []" and cr: "currentRoom s = Some rn" and rn: "rn \<noteq> []"
    by simp_all
  define s1 where
    "s1 = addMessageToChat (JStr (trim v)) (JStr ''You'') True (currentUserId s) JNull s"
  define row where
    "row = MessageRow True (JStr (trim v)) (JStr ''You'') (currentUserAvatar s)"
  have pane: "chatMessages (sendMessage s) = chatMessages s1"
    unfolding s1_def by (rule sendMessage_pane [OF inp nb cr rn])
  have p1: "chatMessages s1 = Some (remove_notice items @ [row])"
    if "chatMessages s = Some items" for items
    unfolding s1_def row_def using that by (rule addMessageToChat_pane)
  have A: "\<forall>items. chatMessages s = Some items \<longrightarrow>
              chatMessages s1 = Some (remove_notice items @ [row]) \<and>
              chatMessages (sendMessage s) = chatMessages s1 \<and>
              filter is_row (remove_notice items @ [row]) = filter is_row items @ [row] \<and>
              ((\<forall>x \<in> set items. is_row x) \<longrightarrow>
                 chatMessages (sendMessage s) = Some (items @ [row]))"
  proof (intro allI impI conjI)
    fix items assume it: "chatMessages s = Some items"
    show "chatMessages s1 = Some (remove_notice items @ [row])" by (rule p1 [OF it])
    show "chatMessages (sendMessage s) = chatMessages s1" by (rule pane)
    show "filter is_row (remove_notice items @ [row]) = filter is_row items @ [row]"
      by (simp add: remove_notice_rows row_def)
    assume "\<forall>x \<in> set items. is_row x"
    then have "remove_notice items = items" by (rule remove_notice_all_rows)
    with pane p1 [OF it] show "chatMessages (sendMessage s) = Some (items @ [row])" by simp
  qed
  have B: "\<forall>i. chatSocket s = Some i \<and> socket_ready s \<longrightarrow>
              s1\<lparr>sockets := ws_send i (trim v) (sockets s1), chatMessageInput := Some []\<rparr> =
                sendMessage s \<and>
              outbox (sockets (sendMessage s) ! i) = outbox (sockets s ! i) @ [trim v]"
  proof (intro allI impI)
    fix i assume r: "chatSocket s = Some i \<and> socket_ready s"
    then have ci: "chatSocket s = Some i" and sr: "socket_ready s" by simp_all
    note eq = sendMessage_ready [OF inp nb cr rn ci sr s1_def]
    from r have len: "i < length (sockets s)"
      by (clarsimp simp: socket_ready_def)
    have "sockets (sendMessage s) = ws_send i (trim v) (sockets s)"
      by (simp add: eq s1_def addMessageToChat_frame)
    with len have "outbox (sockets (sendMessage s) ! i) = outbox (sockets s ! i) @ [trim v]"
      by (simp add: ws_send_def)
    with eq show "s1\<lparr>sockets := ws_send i (trim v) (sockets s1), chatMessageInput := Some []\<rparr> =
                sendMessage s \<and>
              outbox (sockets (sendMessage s) ! i) = outbox (sockets s ! i) @ [trim v]"
      by simp
  qed
  have C: "\<not> socket_ready s \<and> hash_free rn \<longrightarrow>
              (state_of (connectWebSocket rn s1))
                \<lparr>timers := timers s1 @ [(500, trim v)], chatMessageInput := Some []\<rparr> =
                sendMessage s"
    using sendMessage_reconnects [OF inp nb cr rn _ _ s1_def] by simp
  have D: "\<not> socket_ready s \<and> \<not> hash_free rn \<longrightarrow>
              state_of (connectWebSocket rn s1) = sendMessage s"
    using sendMessage_throws [OF inp nb cr rn _ _ s1_def] by simp
  from A B C D show
    "let s1 = addMessageToChat (JStr (trim v)) (JStr ''You'') True (currentUserId s) JNull s;
         row = MessageRow True (JStr (trim v)) (JStr ''You'') (currentUserAvatar s)
     in (\<forall>items. chatMessages s = Some items \<longrightarrow>
              chatMessages s1 = Some (remove_notice items @ [row]) \<and>
              chatMessages (sendMessage s) = chatMessages s1 \<and>
              filter is_row (remove_notice items @ [row]) = filter is_row items @ [row] \<and>
              ((\<forall>x \<in> set items. is_row x) \<longrightarrow>
                 chatMessages (sendMessage s) = Some (items @ [row]))) \<and>
           (\<forall>i. chatSocket s = Some i \<and> socket_ready s \<longrightarrow>
              s1\<lparr>sockets := ws_send i (trim v) (sockets s1), chatMessageInput := Some []\<rparr> =
                sendMessage s \<and>
              outbox (sockets (sendMessage s) ! i) = outbox (sockets s ! i) @ [trim v]) \<and>
           (\<not> socket_ready s \<and> hash_free rn \<longrightarrow>
              (state_of (connectWebSocket rn s1))
                \<lparr>timers := timers s1 @ [(500, trim v)], chatMessageInput := Some []\<rparr> =
                sendMessage s) \<and>
           (\<not> socket_ready s \<and> \<not> hash_free rn \<longrightarrow>
              state_of (connectWebSocket rn s1) = sendMessage s)"
    unfolding Let_def s1_def [symmetric] row_def [symmetric] by blast
qed

lemma update_read_back:
  assumes eq: "(X::state)\<lparr>timers := t, chatMessageInput := c\<rparr> = Y"
  shows "timers Y = t \<and> chatMessageInput Y = c"
proof -
  have "timers (X\<lparr>timers := t, chatMessageInput := c\<rparr>) = timers Y"
    "chatMessageInput (X\<lparr>timers := t, chatMessageInput := c\<rparr>) = chatMessageInput Y"
    by (simp_all only: eq)
  then show ?thesis by simp
qed

lemma hash_typed_facts:
  "chatMessageInput hash_typed = Some ''hi''"
  "currentRoom hash_typed = Some ''room_7_42_#''" "''room_7_42_#'' \<noteq> []"
  "\<not> socket_ready hash_typed" "\<not> hash_free ''room_7_42_#''"
  "state_of (connectWebSocket ''room_7_42_#''
     (addMessageToChat (JStr ''hi'') (JStr ''You'') True (currentUserId hash_typed) JNull
        hash_typed)) =
   hash_typed\<lparr>chatMessages := Some [MessageRow True (JStr ''hi'') (JStr ''You'') JNull]\<rparr>"
  by code_simp+

theorem sendMessage_cases_witness:
  "sendMessage blank_typed = blank_typed \<and>
   sendMessage no_room_typed =
     no_room_typed\<lparr>alerts := alerts no_room_typed @ [''Please select a conversation'']\<rparr> \<and>
   chatMessages (sendMessage ready_typed) =
     Some [MessageRow True (JStr ''hi'') (JStr ''You'') JNull] \<and>
   outbox (sockets (sendMessage ready_typed) ! 0) = [''hi''] \<and>
   chatMessages (sendMessage history_typed) =
     Some [MessageRow False (JStr ''for user 7, from Anna'') (JStr ''Anna'') JNull,
           MessageRow True (JStr ''hi'') (JStr ''You'') JNull] \<and>
   timers (sendMessage connecting_typed) = [(500, ''hi'')] \<and>
   chatMessageInput (sendMessage connecting_typed) = Some [] \<and>
   sendMessage hash_typed =
     hash_typed\<lparr>chatMessages := Some [MessageRow True (JStr ''hi'') (JStr ''You'') JNull]\<rparr>"
proof -
  have first: "sendMessage blank_typed = blank_typed \<and>
   sendMessage no_room_typed =
     no_room_typed\<lparr>alerts := alerts no_room_typed @ [''Please select a conversation'']\<rparr> \<and>
   chatMessages (sendMessage ready_typed) =
     Some [MessageRow True (JStr ''hi'') (JStr ''You'') JNull] \<and>
   outbox (sockets (sendMessage ready_typed) ! 0) = [''hi''] \<and>
   chatMessages (sendMessage history_typed) =
     Some [MessageRow False (JStr ''for user 7, from Anna'') (JStr ''Anna'') JNull,
           MessageRow True (JStr ''hi'') (JStr ''You'') JNull]"
    using sendMessage_cases [OF blank_typed_facts(1), of undefined]
      sendMessage_cases [OF no_room_typed_facts(1), of undefined]
      sendMessage_cases [OF ready_typed_facts(1), of "''room_7_42_x''"]
      sendMessage_cases [OF history_typed_facts(1), of "''room_7_42_x''"]
    by (simp add: blank_typed_facts no_room_typed_facts ready_typed_facts history_typed_facts
          Let_def addMessageToChat_frame addMessageToChat_pane)
  have hf: "hash_free ''room_7_42_x''" by (simp add: hash_free_def)
  let ?c1 = "addMessageToChat (JStr ''hi'') (JStr ''You'') True (currentUserId connecting_typed)
               JNull connecting_typed"
  from sendMessage_cases [OF connecting_typed_facts(1), of "''room_7_42_x''"]
  have "(state_of (connectWebSocket ''room_7_42_x'' ?c1))
          \<lparr>timers := timers ?c1 @ [(500, ''hi'')], chatMessageInput := Some []\<rparr> =
        sendMessage connecting_typed"
    using connecting_typed_facts(3,4,5,6) hf by (simp add: Let_def)
  then have "timers (sendMessage connecting_typed) = timers ?c1 @ [(500, ''hi'')] \<and>
    chatMessageInput (sendMessage connecting_typed) = Some []"
    by (rule update_read_back)
  then have second: "timers (sendMessage connecting_typed) = [(500, ''hi'')]"
    "chatMessageInput (sendMessage connecting_typed) = Some []"
    by (simp_all add: addMessageToChat_frame connecting_typed_facts)
  from sendMessage_cases [OF hash_typed_facts(1), of "''room_7_42_#''"]
  have "state_of (connectWebSocket ''room_7_42_#''
          (addMessageToChat (JStr ''hi'') (JStr ''You'') True (currentUserId hash_typed) JNull
             hash_typed)) =
        sendMessage hash_typed"
    using hash_typed_facts(2,3,4,5) no_room_typed_facts(2)
    by (simp add: Let_def)
  then have third: "sendMessage hash_typed =
     hash_typed\<lparr>chatMessages := Some [MessageRow True (JStr ''hi'') (JStr ''You'') JNull]\<rparr>"
    by (simp only: hash_typed_facts(6))
  from first second third show ?thesis by simp
qed

lemma retry_after_history_facts:
  "chatMessages retry_pending = Some [MessageRow True (JStr ''hi'') (JStr ''You'') JNull]"
  "alerts retry_pending = []"
  "alerts retry_after_history = [''Unable to connect. Please try again.'']"
  "chatMessages retry_after_history =
     Some [MessageRow False (JStr ''for user 7, from Anna'') (JStr ''Anna'') JNull]"
  by code_simp+

text \<open>
  Claim C3, as stated, fails where it says that the optimistic message is never removed:
  user 7 sends while the socket is connecting, the history of the room arrives and
  replaces the pane, then the retry timer fires with the socket still not open. The alert
  is raised and the pane holds Anna's message only.
\<close>

theorem send_retry_once_counterexample:
  "chatMessages retry_pending = Some [MessageRow True (JStr ''hi'') (JStr ''You'') JNull] \<and>
   alerts retry_after_history = [''Unable to connect. Please try again.''] \<and>
   chatMessages retry_after_history =
     Some [MessageRow False (JStr ''for user 7, from Anna'') (JStr ''Anna'') JNull]"
  by (simp add: retry_after_history_facts)

text \<open>
  Claim C3, amended. Sending a non-blank text in an active room, whose name holds no
  \<^verbatim>\<open>#\<close>, while the socket is not open reconnects once (one new socket, connecting, for
  the room) and arms one retry timer of 500 ms; nothing is sent and no alert is raised
  yet, and the optimistic row is in the pane. When the timer fires and the socket is
  still not open, the only changes are that the timer is gone and the failure alert is
  shown: the retry does not touch the pane, no timer is armed again and nothing is
  queued. When the socket is open by then, the text is sent. The row stays on the pane
  unless the pane is rewritten in between: a history reply with messages replaces the
  whole pane by the history.
\<close>

theorem send_retry_once:
  assumes inp: "chatMessageInput s = Some v" and nonblank: "trim v \<noteq> []"
    and room: "currentRoom s = Some rn" "rn \<noteq> []" and plain: "hash_free rn"
    and not_ready: "\<not> socket_ready s"
  shows
   "timers (sendMessage s) = timers s @ [(500, trim v)] \<and>
    length (sockets (sendMessage s)) = Suc (length (sockets s)) \<and>
    chatSocket (sendMessage s) = Some (length (sockets s)) \<and>
    sockets (sendMessage s) ! length (sockets s) =
      \<lparr>wsUrl = (if currentIsBot s then ''/ws/chat/bot/'' else ''/ws/chat/private/'') @ rn @ ''/'',
       readyState = CONNECTING, outbox = []\<rparr> \<and>
    (\<forall>j < length (sockets s). outbox (sockets (sendMessage s) ! j) = outbox (sockets s ! j)) \<and>
    alerts (sendMessage s) = alerts s \<and>
    (\<forall>items. chatMessages s = Some items \<longrightarrow>
       chatMessages (sendMessage s) =
         Some (remove_notice items @
                 [MessageRow True (JStr (trim v)) (JStr ''You'') (currentUserAvatar s)])) \<and>
    (\<forall>t k. k < length (timers t) \<and> snd (timers t ! k) = trim v \<and> \<not> socket_ready t \<longrightarrow>
       step t (TimerFires k) =
         t\<lparr>timers := remove_nth k (timers t),
           alerts := alerts t @ [''Unable to connect. Please try again.'']\<rparr>) \<and>
    (\<forall>t k i. k < length (timers t) \<and> snd (timers t ! k) = trim v \<and>
        chatSocket t = Some i \<and> socket_ready t \<longrightarrow>
       step t (TimerFires k) =
         t\<lparr>timers := remove_nth k (timers t), sockets := ws_send i (trim v) (sockets t)\<rparr>) \<and>
    (\<forall>t k rn' oid ms. k < length (pending t) \<and> pending t ! k = GetMessages rn' oid \<and>
        chatMessages t \<noteq> None \<and> ms \<noteq> [] \<longrightarrow>
       chatMessages (step t (Reply k (MessagesData (Some ms)))) = Some (map (history_row t) ms))"
proof -
  let ?s1 = "addMessageToChat (JStr (trim v)) (JStr ''You'') True (currentUserId s) JNull s"
  note eq = sendMessage_reconnects [OF inp nonblank room not_ready plain refl]
  have a: "timers (sendMessage s) = timers s @ [(500, trim v)]"
    by (simp add: eq addMessageToChat_frame)
  have b: "length (sockets (sendMessage s)) = Suc (length (sockets s))"
    by (simp add: eq connected_frame [OF plain] addMessageToChat_frame)
  have c: "chatSocket (sendMessage s) = Some (length (sockets s))"
    by (simp add: eq connected_frame [OF plain] addMessageToChat_frame)
  have d: "sockets (sendMessage s) ! length (sockets s) =
      \<lparr>wsUrl = (if currentIsBot s then ''/ws/chat/bot/'' else ''/ws/chat/private/'') @ rn @ ''/'',
       readyState = CONNECTING, outbox = []\<rparr>"
    using connected_new [OF plain, of "length (sockets s)" ?s1]
    by (simp add: eq addMessageToChat_frame)
  have e: "\<forall>j < length (sockets s). outbox (sockets (sendMessage s) ! j) = outbox (sockets s ! j)"
    using connected_outbox [OF plain, of _ ?s1]
    by (simp add: eq addMessageToChat_frame)
  have f: "alerts (sendMessage s) = alerts s"
    by (simp add: eq connected_frame [OF plain] addMessageToChat_frame)
  have g: "\<forall>items. chatMessages s = Some items \<longrightarrow>
       chatMessages (sendMessage s) =
         Some (remove_notice items @
                 [MessageRow True (JStr (trim v)) (JStr ''You'') (currentUserAvatar s)])"
    by (simp add: eq connectWebSocket_pane addMessageToChat_pane)
  have h: "\<forall>t k. k < length (timers t) \<and> snd (timers t ! k) = trim v \<and> \<not> socket_ready t \<longrightarrow>
       step t (TimerFires k) =
         t\<lparr>timers := remove_nth k (timers t),
           alerts := alerts t @ [''Unable to connect. Please try again.'']\<rparr>"
    by (simp add: sendMessage_retry_not_ready)
  have i: "\<forall>t k i. k < length (timers t) \<and> snd (timers t ! k) = trim v \<and>
        chatSocket t = Some i \<and> socket_ready t \<longrightarrow>
       step t (TimerFires k) =
         t\<lparr>timers := remove_nth k (timers t), sockets := ws_send i (trim v) (sockets t)\<rparr>"
    by (simp add: sendMessage_retry_ready)
  have j: "\<forall>t k rn' oid ms. k < length (pending t) \<and> pending t ! k = GetMessages rn' oid \<and>
        chatMessages t \<noteq> None \<and> ms \<noteq> [] \<longrightarrow>
       chatMessages (step t (Reply k (MessagesData (Some ms)))) = Some (map (history_row t) ms)"
    by (simp add: loadChatMessages_then_rows)
  from a b c d e f g h i j show ?thesis by blast
qed

lemma retry_opened_facts:
  "0 < length (timers retry_opened)" "snd (timers retry_opened ! 0) = ''hi''"
  "chatSocket retry_opened = Some 1" "socket_ready retry_opened"
  "1 < length (pending retry_pending)"
  "pending retry_pending ! 1 = GetMessages ''room_7_42_x'' (Finite 42)"
  "chatMessages retry_pending \<noteq> None"
  "map (history_row retry_pending) [anna_msg] =
     [MessageRow False (JStr ''for user 7, from Anna'') (JStr ''Anna'') JNull]"
  "0 < length (timers retry_pending)"
  by code_simp+

theorem send_retry_once_witness:
  "hash_free ''room_7_42_x'' \<and>
   timers (sendMessage connecting_typed) = [(500, ''hi'')] \<and>
   length (sockets (sendMessage connecting_typed)) = 2 \<and>
   alerts (sendMessage connecting_typed) = [] \<and>
   chatMessages (sendMessage connecting_typed) =
     Some [MessageRow True (JStr ''hi'') (JStr ''You'') JNull] \<and>
   step retry_pending (TimerFires 0) =
     retry_pending\<lparr>timers := remove_nth 0 (timers retry_pending),
       alerts := alerts retry_pending @ [''Unable to connect. Please try again.'']\<rparr> \<and>
   step retry_opened (TimerFires 0) =
     retry_opened\<lparr>timers := remove_nth 0 (timers retry_opened),
       sockets := ws_send 1 ''hi'' (sockets retry_opened)\<rparr> \<and>
   chatMessages (step retry_pending (Reply 1 (MessagesData (Some [anna_msg])))) =
     Some [MessageRow False (JStr ''for user 7, from Anna'') (JStr ''Anna'') JNull]"
proof -
  have hf: "hash_free ''room_7_42_x''" by (simp add: hash_free_def)
  have ne: "[anna_msg] \<noteq> []" by simp
  note t = send_retry_once [OF connecting_typed_facts(1,2,4,5) hf connecting_typed_facts(6),
    unfolded connecting_typed_facts(3)]
  from t have a: "timers (sendMessage connecting_typed) = [(500, ''hi'')] \<and>
   length (sockets (sendMessage connecting_typed)) = 2 \<and>
   alerts (sendMessage connecting_typed) = [] \<and>
   chatMessages (sendMessage connecting_typed) =
     Some [MessageRow True (JStr ''hi'') (JStr ''You'') JNull]"
    by (simp add: connecting_typed_facts del: step.simps)
  from t have b: "step retry_pending (TimerFires 0) =
     retry_pending\<lparr>timers := remove_nth 0 (timers retry_pending),
       alerts := alerts retry_pending @ [''Unable to connect. Please try again.'']\<rparr>"
    using retry_opened_facts(9) retry_pending_facts(1,2) by blast
  from t have c: "step retry_opened (TimerFires 0) =
     retry_opened\<lparr>timers := remove_nth 0 (timers retry_opened),
       sockets := ws_send 1 ''hi'' (sockets retry_opened)\<rparr>"
    using retry_opened_facts(1,2,3,4) by blast
  from t have d: "chatMessages (step retry_pending (Reply 1 (MessagesData (Some [anna_msg])))) =
     Some (map (history_row retry_pending) [anna_msg])"
    using retry_opened_facts(5,6,7) ne by blast
  from a b c d hf show ?thesis
    by (simp only: retry_opened_facts(8))
qed

section \<open>Filtering the room list\<close>

lemma startsWith_take: "startsWith s t \<longleftrightarrow> take (length t) s = t"
  by (induction s t rule: startsWith.induct) auto

lemma includes_str_window:
  "includes_str s t \<longleftrightarrow> (\<exists>i \<le> length s. take (length t) (drop i s) = t)"
proof (induction s)
  case Nil
  then show ?case by auto
next
  case (Cons x s)
  have "(\<exists>i \<le> Suc (length s). take (length t) (drop i (x # s)) = t) \<longleftrightarrow>
        take (length t) (x # s) = t \<or> (\<exists>j \<le> length s. take (length t) (drop j s) = t)"
    (is "?L \<longleftrightarrow> ?R")
  proof
    assume ?L
    then obtain i where i: "i \<le> Suc (length s)" "take (length t) (drop i (x # s)) = t" by blast
    show ?R
    proof (cases i)
      case 0
      with i show ?thesis by simp
    next
      case (Suc j)
      with i show ?thesis by auto
    qed
  next
    assume ?R
    then show ?L
    proof
      assume "take (length t) (x # s) = t"
      then have "0 \<le> Suc (length s) \<and> take (length t) (drop 0 (x # s)) = t" by simp
      then show ?L by blast
    next
      assume "\<exists>j \<le> length s. take (length t) (drop j s) = t"
      then obtain j where "j \<le> length s" "take (length t) (drop j s) = t" by blast
      then have "Suc j \<le> Suc (length s) \<and> take (length t) (drop (Suc j) (x # s)) = t" by simp
      then show ?L by blast
    qed
  qed
  with Cons show ?case by (simp add: startsWith_take)
qed

lemma map_eq_iff_same:
  "map lower_char a = map lower_char b \<longleftrightarrow> same_ignoring_case a b"
  unfolding same_ignoring_case_def
proof (induction a arbitrary: b)
  case Nil
  then show ?case by simp
next
  case (Cons x a)
  then show ?case by (cases b) simp_all
qed

lemma includes_ignoring_case:
  "includes_str (toLowerCase n) (toLowerCase q) \<longleftrightarrow> contains_ignoring_case n q"
proof -
  have w: "take (length q) (drop i (map lower_char n)) = map lower_char q \<longleftrightarrow>
           same_ignoring_case (take (length q) (drop i n)) q" for i
    by (simp only: map_eq_iff_same [symmetric] take_map drop_map)
  show ?thesis
    by (simp add: includes_str_window contains_ignoring_case_def toLowerCase_def w
          list_ex_iff Bex_def less_Suc_eq_le del: upt_Suc)
qed

lemma two_rooms_facts:
  "chatRooms unread_only = [room_of api_anna, room_of api_bob]"
  "searchQuery unread_only = []" "filter_sel unread_only = ''unread''"
  "chatRooms search_ann = [room_of api_anna, room_of api_bob]"
  "searchQuery search_ann = ''ann''" "filter_sel search_ann = ''all''"
  "name (room_of api_anna) = ''Anna''" "name (room_of api_bob) = ''Bob''"
  "unreadCount (room_of api_anna) = 3" "unreadCount (room_of api_bob) = 0"
  "contains_ignoring_case ''Anna'' ''ann''" "\<not> contains_ignoring_case ''Bob'' ''ann''"
  by code_simp+

text \<open>
  Claim C7. The rooms that \<^verbatim>\<open>renderChatList\<close> shows are those of \<^verbatim>\<open>chatRooms\<close> that
  contain the query, case ignored, in their display name when the query is not empty,
  and that have \<^verbatim>\<open>unreadCount > 0\<close> when the filter is \<^verbatim>\<open>unread\<close>; they come in the
  order of the original list. With two rooms of which Anna's has three unread, the filter
  \<^verbatim>\<open>unread\<close> yields Anna's room, and the query \<^verbatim>\<open>ann\<close> matches Anna and not Bob.
\<close>

theorem filtered_rooms:
  "filteredRooms s =
     filter (\<lambda>room. (searchQuery s \<noteq> [] \<longrightarrow> contains_ignoring_case (name room) (searchQuery s)) \<and>
                     (filter_sel s = ''unread'' \<longrightarrow> unreadCount room > 0))
            (chatRooms s) \<and>
   subseq (filteredRooms s) (chatRooms s) \<and>
   (chatList s \<noteq> None \<longrightarrow>
      chatList (renderChatList s) =
        Some (if filteredRooms s = [] then NoConversations else Conversations (filteredRooms s)))"
proof (intro conjI impI)
  show "filteredRooms s =
     filter (\<lambda>room. (searchQuery s \<noteq> [] \<longrightarrow> contains_ignoring_case (name room) (searchQuery s)) \<and>
                     (filter_sel s = ''unread'' \<longrightarrow> unreadCount room > 0))
            (chatRooms s)"
    by (cases "searchQuery s = []"; cases "filter_sel s = ''unread''")
       (simp_all add: filteredRooms_def includes_ignoring_case)
  show "subseq (filteredRooms s) (chatRooms s)"
    by (cases "searchQuery s = []"; cases "filter_sel s = ''unread''")
       (simp_all add: filteredRooms_def)
next
  assume "chatList s \<noteq> None"
  then show "chatList (renderChatList s) =
        Some (if filteredRooms s = [] then NoConversations else Conversations (filteredRooms s))"
    by (auto simp: renderChatList_def)
qed

theorem filtered_rooms_witness:
  "filteredRooms unread_only = [room_of api_anna] \<and>
   filteredRooms search_ann = [room_of api_anna] \<and>
   contains_ignoring_case (name (room_of api_anna)) ''ann'' \<and>
   \<not> contains_ignoring_case (name (room_of api_bob)) ''ann'' \<and>
   subseq [room_of api_anna] (chatRooms unread_only)"
  using filtered_rooms [of unread_only] filtered_rooms [of search_ann]
  by (simp add: two_rooms_facts)

section \<open>Opening a room\<close>

lemma loadChatMessages_malformed:
  "length (split_on CHR ''_'' rn) < 3 \<Longrightarrow>
   loadChatMessages rn s =
     (case chatMessages s of None \<Rightarrow> s
      | Some _ \<Rightarrow> s\<lparr>chatMessages := Some [Notice ''Error: Invalid chat room format'']\<rparr>)"
  by (simp add: loadChatMessages_def)

text \<open>
  Claim C6, as stated, fails: a room name with fewer than three parts is shown as an
  error and no history is requested, but \<^verbatim>\<open>showChatDetail\<close> goes on to
  \<^verbatim>\<open>connectWebSocket\<close>, and a socket for the room is opened. Here for the name
  \<^verbatim>\<open>lobby\<close>, on a page with no socket before.
\<close>

theorem malformed_room_counterexample:
  "length (split_on CHR ''_'' ''lobby'') < 3 \<and>
   sockets (boot page7) = [] \<and>
   chatSocket (showChatDetail ''lobby'' (Some anna) False (boot page7)) = Some 0 \<and>
   sockets (showChatDetail ''lobby'' (Some anna) False (boot page7)) =
     [\<lparr>wsUrl = ''/ws/chat/private/lobby/'', readyState = CONNECTING, outbox = []\<rparr>]"
  by code_simp

text \<open>
  Claim C6, amended. Opening a room whose name is not empty, holds no \<^verbatim>\<open>#\<close> and has
  fewer than three underscore-delimited parts shows the error notice in the message pane
  (if the pane is on the page) and issues no request; the view is the detail view of that
  room and a new socket for the room is opened, as for any other room.
\<close>

theorem malformed_room_opened:
  assumes short: "length (split_on CHR ''_'' rn) < 3" and nonempty: "rn \<noteq> []"
    and plain: "hash_free rn"
  shows
   "(chatMessages s \<noteq> None \<longrightarrow>
       chatMessages (showChatDetail rn (Some u) b s) =
         Some [Notice ''Error: Invalid chat room format'']) \<and>
    pending (showChatDetail rn (Some u) b s) = pending s \<and>
    currentView (showChatDetail rn (Some u) b s) = VDetail \<and>
    currentRoom (showChatDetail rn (Some u) b s) = Some rn \<and>
    chatSocket (showChatDetail rn (Some u) b s) = Some (length (sockets s)) \<and>
    sockets (showChatDetail rn (Some u) b s) ! length (sockets s) =
      \<lparr>wsUrl = (if b then ''/ws/chat/bot/'' else ''/ws/chat/private/'') @ rn @ ''/'',
       readyState = CONNECTING, outbox = []\<rparr>"
  using nonempty
  by (auto simp: showChatDetail_def Let_def loadChatMessages_malformed [OF short]
        connected_frame [OF plain] connected_new [OF plain] connectWebSocket_pane
        split: option.splits)

theorem malformed_room_opened_witness:
  "length (split_on CHR ''_'' ''lobby'') < 3 \<and> ''lobby'' \<noteq> [] \<and> hash_free ''lobby'' \<and>
   chatMessages (boot page7) \<noteq> None \<and>
   chatMessages lobby_opened = Some [Notice ''Error: Invalid chat room format''] \<and>
   pending lobby_opened = pending (boot page7) \<and>
   chatSocket lobby_opened = Some 0"
proof -
  have a: "length (split_on CHR ''_'' ''lobby'') < 3" by code_simp
  have b: "''lobby'' \<noteq> []" by simp
  have h: "hash_free ''lobby''" by (simp add: hash_free_def)
  have c: "chatMessages (boot page7) \<noteq> None" "length (sockets (boot page7)) = 0" by code_simp+
  show ?thesis
    using malformed_room_opened [OF a b h, of "boot page7" anna False] a c h
    by (simp add: lobby_opened_def)
qed

section \<open>History loads and read receipts\<close>

lemma connectWebSocket_pending:
  "pending (state_of (connectWebSocket rn s)) = pending s"
  by (cases "hash_free rn")
     (simp_all add: connectWebSocket_returns connectWebSocket_throws newWebSocket_frame
        closeSocket_frame)

lemma showChatDetail_pending:
  "take (length (pending s)) (pending (showChatDetail rn' ou b s)) = pending s"
  by (simp add: showChatDetail_def Let_def loadChatMessages_def connectWebSocket_pending
        split: option.splits)

lemma switched_facts:
  "1 < length (pending switched)" "pending switched ! 1 = GetMessages ''room_7_42_x'' (Finite 42)"
  "chatMessages switched \<noteq> None" "currentRoom switched = Some ''room_7_43_x''"
  "map (history_row switched) [anna_msg] =
     [MessageRow False (JStr ''for user 7, from Anna'') (JStr ''Anna'') JNull]"
  by code_simp+

lemma markMessagesAsRead_then_pane:
  "chatMessages (markMessagesAsRead_then success t) = chatMessages t"
  by (simp add: markMessagesAsRead_then_def loadChatRooms_def)

lemma history_shown_facts:
  "1 < length (pending room_open)" "pending room_open ! 1 = GetMessages ''room_7_42_x'' (Finite 42)"
  "chatMessages room_open \<noteq> None"
  "remove_nth 1 (pending room_open) = [GetRooms]"
  "1 < length (pending history_shown)" "pending history_shown ! 1 = PostMarkRead (Finite 42)"
  "truthy (JBool True)" "truthy (chatRoomsApiUrl history_shown)"
  "remove_nth 1 (pending history_shown) = [GetRooms]"
  "chatMessages history_shown =
     Some [MessageRow False (JStr ''for user 7, from Anna'') (JStr ''Anna'') JNull]"
  by code_simp+

text \<open>
  Claim C8, as stated, fails: the callback of the history load does not look at
  \<^verbatim>\<open>chatState.currentRoom\<close>. User 7 opens Anna's room, then Bob's; the history of
  Anna's room arrives and is rendered into the pane while Bob's room is the current one.
\<close>

theorem late_history_counterexample:
  "pending switched ! 1 = GetMessages ''room_7_42_x'' (Finite 42) \<and>
   currentRoom switched = Some ''room_7_43_x'' \<and>
   currentRoom (step switched (Reply 1 (MessagesData (Some [anna_msg])))) = Some ''room_7_43_x'' \<and>
   chatMessages (step switched (Reply 1 (MessagesData (Some [anna_msg])))) =
     Some [MessageRow False (JStr ''for user 7, from Anna'') (JStr ''Anna'') JNull]"
  by code_simp

text \<open>
  Claim C8, amended. A history result with at least one message is rendered into the
  message pane when it arrives, whatever the current room is then; the current room is
  not consulted or changed. Returning to the list, closing the widget and opening another
  room leave the requests in flight as they are: no load is cancelled.
\<close>

theorem late_history_rendered:
  assumes "k < length (pending s)" and "pending s ! k = GetMessages rn oid"
    and "chatMessages s \<noteq> None" and "ms \<noteq> []"
  shows
   "chatMessages (step s (Reply k (MessagesData (Some ms)))) = Some (map (history_row s) ms) \<and>
    currentRoom (step s (Reply k (MessagesData (Some ms)))) = currentRoom s \<and>
    pending (showChatList s) = pending s \<and>
    pending (closeChatWindow s) = pending s \<and>
    take (length (pending s)) (pending (showChatDetail rn' ou b s)) = pending s"
  using assms
  by (simp add: loadChatMessages_then_rows showChatDetail_pending showChatList_def
        closeChatWindow_def closeSocket_frame)

theorem late_history_rendered_witness:
  "1 < length (pending switched) \<and>
   pending switched ! 1 = GetMessages ''room_7_42_x'' (Finite 42) \<and>
   chatMessages switched \<noteq> None \<and> [anna_msg] \<noteq> [] \<and>
   currentRoom (step switched (Reply 1 (MessagesData (Some [anna_msg])))) = Some ''room_7_43_x'' \<and>
   chatMessages (step switched (Reply 1 (MessagesData (Some [anna_msg])))) =
     Some [MessageRow False (JStr ''for user 7, from Anna'') (JStr ''Anna'') JNull]"
proof -
  have ne: "[anna_msg] \<noteq> []" by simp
  show ?thesis
    using late_history_rendered [OF switched_facts(1,2,3) ne] switched_facts
    by simp
qed

text \<open>
  Claim C9, as stated, fails: a history load that succeeds with an empty list of messages
  shows the notice and returns before \<^verbatim>\<open>markMessagesAsRead\<close>; no read receipt is
  requested.
\<close>

theorem read_receipt_counterexample:
  "pending room_open = [GetRooms, GetMessages ''room_7_42_x'' (Finite 42)] \<and>
   pending (step room_open (Reply 1 (MessagesData (Some [])))) = [GetRooms] \<and>
   chatMessages (step room_open (Reply 1 (MessagesData (Some [])))) =
     Some [Notice ''No messages yet'']"
  by code_simp

lemma loadChatMessages_then_empty:
  "pending (loadChatMessages_then oid (Some []) s) = pending s"
  "pending (loadChatMessages_then oid None s) = pending s"
  "chatMessages s = None \<Longrightarrow> pending (loadChatMessages_then oid msgs s) = pending s"
  by (simp_all add: loadChatMessages_then_def split: option.splits)

text \<open>
  Claim C9, amended. After a history load that succeeds with at least one message, the
  message pane being on the page, a read receipt is requested for the counterpart id
  resolved for that load. When the reply to it reports success, \<^verbatim>\<open>loadChatRooms\<close> runs:
  the directory is fetched again if the rooms endpoint is configured. No reply to the
  read receipt, success or failure, changes the message pane. A load that succeeds with
  an empty list or with no list of messages, or that finds no message pane on the page,
  requests no read receipt.
\<close>

theorem read_receipt_after_history:
  assumes "k < length (pending s)" and "pending s ! k = GetMessages rn oid"
  shows
   "(chatMessages s \<noteq> None \<and> ms \<noteq> [] \<longrightarrow>
       pending (step s (Reply k (MessagesData (Some ms)))) =
         remove_nth k (pending s) @ [PostMarkRead oid]) \<and>
    pending (step s (Reply k (MessagesData (Some [])))) = remove_nth k (pending s) \<and>
    pending (step s (Reply k (MessagesData None))) = remove_nth k (pending s) \<and>
    (chatMessages s = None \<longrightarrow>
       pending (step s (Reply k (MessagesData (Some ms)))) = remove_nth k (pending s)) \<and>
    (\<forall>(t::state) j success. j < length (pending t) \<and> pending t ! j = PostMarkRead oid \<and> truthy success \<longrightarrow>
       step t (Reply j (MarkReadData success)) = loadChatRooms (t\<lparr>pending := remove_nth j (pending t)\<rparr>) \<and>
       (truthy (chatRoomsApiUrl t) \<longrightarrow>
          pending (step t (Reply j (MarkReadData success))) = remove_nth j (pending t) @ [GetRooms])) \<and>
    (\<forall>(t::state) j r. j < length (pending t) \<and> pending t ! j = PostMarkRead oid \<longrightarrow>
       chatMessages (step t (Reply j r)) = chatMessages t)"
proof (intro conjI allI impI)
  assume "chatMessages s \<noteq> None \<and> ms \<noteq> []"
  then show "pending (step s (Reply k (MessagesData (Some ms)))) =
      remove_nth k (pending s) @ [PostMarkRead oid]"
    using assms by (simp add: loadChatMessages_then_rows)
next
  show "pending (step s (Reply k (MessagesData (Some [])))) = remove_nth k (pending s)"
    using assms by (simp add: loadChatMessages_then_empty)
next
  show "pending (step s (Reply k (MessagesData None))) = remove_nth k (pending s)"
    using assms by (simp add: loadChatMessages_then_empty)
next
  assume "chatMessages s = None"
  then show "pending (step s (Reply k (MessagesData (Some ms)))) = remove_nth k (pending s)"
    using assms by (simp add: loadChatMessages_then_empty)
next
  fix t :: state and j success
  assume a: "j < length (pending t) \<and> pending t ! j = PostMarkRead oid \<and> truthy success"
  then show "step t (Reply j (MarkReadData success)) =
    loadChatRooms (t\<lparr>pending := remove_nth j (pending t)\<rparr>)"
    by (simp add: markMessagesAsRead_then_def)
  assume "truthy (chatRoomsApiUrl t)"
  with a show "pending (step t (Reply j (MarkReadData success))) =
    remove_nth j (pending t) @ [GetRooms]"
    by (simp add: markMessagesAsRead_then_def loadChatRooms_def)
next
  fix t :: state and j r
  assume a: "j < length (pending t) \<and> pending t ! j = PostMarkRead oid"
  then show "chatMessages (step t (Reply j r)) = chatMessages t"
    by (cases r) (simp_all add: markMessagesAsRead_then_pane markMessagesAsRead_catch_def)
qed

lemma no_pane_open_facts:
  "1 < length (pending no_pane_open)"
  "pending no_pane_open ! 1 = GetMessages ''room_7_42_x'' (Finite 42)"
  "chatMessages no_pane_open = None"
  "remove_nth 1 (pending no_pane_open) = [GetRooms]"
  by code_simp+

theorem read_receipt_after_history_witness:
  "chatMessages room_open \<noteq> None \<and> [anna_msg] \<noteq> [] \<and>
   pending (step room_open (Reply 1 (MessagesData (Some [anna_msg])))) =
     [GetRooms, PostMarkRead (Finite 42)] \<and>
   pending (step room_open (Reply 1 (MessagesData (Some [])))) = [GetRooms] \<and>
   chatMessages no_pane_open = None \<and>
   pending (step no_pane_open (Reply 1 (MessagesData (Some [anna_msg])))) = [GetRooms] \<and>
   pending (step history_shown (Reply 1 (MarkReadData (JBool True)))) = [GetRooms, GetRooms] \<and>
   chatMessages (step history_shown (Reply 1 (Failed ''offline''))) =
     Some [MessageRow False (JStr ''for user 7, from Anna'') (JStr ''Anna'') JNull]"
proof -
  have ne: "[anna_msg] \<noteq> []" by simp
  note t = read_receipt_after_history [OF history_shown_facts(1,2), of "[anna_msg]"]
  note n = read_receipt_after_history [OF no_pane_open_facts(1,2), of "[anna_msg]"]
  from t ne have a: "pending (step room_open (Reply 1 (MessagesData (Some [anna_msg])))) =
     [GetRooms, PostMarkRead (Finite 42)]"
    by (simp add: history_shown_facts del: step.simps One_nat_def)
  from t have a': "pending (step room_open (Reply 1 (MessagesData (Some [])))) = [GetRooms]"
    by (simp add: history_shown_facts del: step.simps One_nat_def)
  from n have a'': "pending (step no_pane_open (Reply 1 (MessagesData (Some [anna_msg])))) =
     [GetRooms]"
    by (simp add: no_pane_open_facts del: step.simps One_nat_def)
  from t have b: "pending (step history_shown (Reply 1 (MarkReadData (JBool True)))) =
     remove_nth 1 (pending history_shown) @ [GetRooms]"
    using history_shown_facts(5,6,7,8) by blast
  from t have c: "chatMessages (step history_shown (Reply 1 (Failed ''offline''))) =
     chatMessages history_shown"
    using history_shown_facts(5,6) by blast
  from a a' a'' b c ne show ?thesis
    by (simp add: history_shown_facts no_pane_open_facts del: step.simps One_nat_def)
qed

section \<open>One transport, and only in the detail view\<close>

lemma transport_inv_core:
  assumes "core s' = core s"
  shows "transport_inv s' = transport_inv s"
proof -
  from assms have v: "currentView s' = currentView s" "currentRoom s' = currentRoom s"
    "chatSocket s' = chatSocket s" and m: "map live (sockets s') = map live (sockets s)"
    by (simp_all add: core_def)
  from m have len: "length (sockets s') = length (sockets s)"
    by (rule map_eq_imp_length_eq)
  from m len have nth: "\<And>j. j < length (sockets s) \<Longrightarrow> live (sockets s' ! j) = live (sockets s ! j)"
    by (metis nth_map)
  have ex: "exclusive s' = exclusive s"
    by (auto simp: exclusive_def v len nth)
  show ?thesis
    by (simp add: transport_inv_def room_selected_def v len ex split: option.splits)
qed

lemma core_addMessageToChat: "core (addMessageToChat c n b i a s) = core s"
  by (simp add: core_def addMessageToChat_def Let_def split: option.splits)

lemma core_onmessage: "core (onmessage e s) = core s"
  by (simp add: onmessage_def Let_def core_addMessageToChat split: option.splits)

lemma core_loadChatRooms: "core (loadChatRooms s) = core s"
  by (simp add: core_def loadChatRooms_def)

lemma core_renderChatList: "core (renderChatList s) = core s"
  by (simp add: core_def renderChatList_def split: option.splits)

lemma core_handle_reply:
  "handle_reply rq r s = Some s' \<Longrightarrow> core s' = core s"
  by (cases "(rq, r, s)" rule: handle_reply.cases)
     (auto simp: core_def loadChatRooms_then_def loadChatRooms_catch_def
        loadChatMessages_then_def loadChatMessages_catch_def markMessagesAsRead_def
        markMessagesAsRead_then_def markMessagesAsRead_catch_def loadChatRooms_def
        renderChatList_def updateUnreadBadge_def split: option.splits if_splits)

lemma map_live_ws_send: "map live (ws_send i m ws) = map live ws"
  by (simp add: ws_send_def live_def map_update list_update_same_conv)

text \<open>Closing the current socket leaves no live socket when the current one was the only one.\<close>

lemma ws_close_nth:
  "j < length ws \<Longrightarrow>
   live (ws_close i ws ! j) = (live (ws ! j) \<and> j \<noteq> i)"
  by (cases "j = i") (simp_all add: ws_close_def live_def)

lemma closeSocket_all_closed:
  assumes "exclusive s" and "j < length (sockets s)"
  shows "\<not> live (sockets (closeSocket s) ! j)"
proof (cases "chatSocket s")
  case None
  from assms have "live (sockets s ! j) \<longrightarrow> chatSocket s = Some j"
    unfolding exclusive_def by blast
  with None show ?thesis by (simp add: closeSocket_def)
next
  case (Some i)
  from assms have "live (sockets s ! j) \<longrightarrow> chatSocket s = Some j"
    unfolding exclusive_def by blast
  with Some have "live (sockets s ! j) \<longrightarrow> j = i" by simp
  with Some assms(2) show ?thesis
    by (simp add: closeSocket_def ws_close_nth)
qed

lemma connectWebSocket_old_closed:
  assumes "exclusive s" and "j < length (sockets s)"
  shows "\<not> live (sockets (state_of (connectWebSocket rn s)) ! j)"
  using closeSocket_all_closed [OF assms] assms(2)
  by (cases "hash_free rn")
     (simp_all add: connectWebSocket_returns connectWebSocket_throws newWebSocket_frame
        closeSocket_frame nth_append)

lemma connectWebSocket_new_live:
  "hash_free rn \<Longrightarrow> live (sockets (state_of (connectWebSocket rn s)) ! length (sockets s))"
  by (simp add: connected_new live_def)

lemma connectWebSocket_length:
  "length (sockets (state_of (connectWebSocket rn s))) =
     (if hash_free rn then Suc (length (sockets s)) else length (sockets s))"
  by (simp add: connectWebSocket_returns connectWebSocket_throws newWebSocket_frame
        closeSocket_frame)

lemma connectWebSocket_chatSocket:
  "chatSocket (state_of (connectWebSocket rn s)) =
     (if hash_free rn then Some (length (sockets s)) else None)"
  by (simp add: connectWebSocket_returns connectWebSocket_throws newWebSocket_frame
        closeSocket_frame)

lemma connectWebSocket_view:
  "currentView (state_of (connectWebSocket rn s)) = currentView s"
  "currentRoom (state_of (connectWebSocket rn s)) = currentRoom s"
  by (cases "hash_free rn";
      simp add: connectWebSocket_returns connectWebSocket_throws newWebSocket_frame
        closeSocket_frame)+

lemma connectWebSocket_exclusive:
  assumes "exclusive s"
  shows "exclusive (state_of (connectWebSocket rn s))"
  unfolding exclusive_def
proof (intro allI impI)
  fix j
  assume j: "j < length (sockets (state_of (connectWebSocket rn s)))"
    and l: "live (sockets (state_of (connectWebSocket rn s)) ! j)"
  from j have "j < length (sockets s) \<or> (hash_free rn \<and> j = length (sockets s))"
    by (auto simp: connectWebSocket_length split: if_splits)
  with l connectWebSocket_old_closed [OF assms] have "hash_free rn \<and> j = length (sockets s)"
    by blast
  then show "chatSocket (state_of (connectWebSocket rn s)) = Some j"
    by (simp add: connectWebSocket_chatSocket)
qed

lemma closeSocket_exclusive:
  assumes "exclusive s"
  shows "exclusive (closeSocket s)"
  using closeSocket_all_closed [OF assms]
  by (simp add: exclusive_def closeSocket_frame)

lemma exclusive_fields [simp]:
  "exclusive (s\<lparr>isOpen := a\<rparr>) = exclusive s"
  "exclusive (s\<lparr>currentView := b\<rparr>) = exclusive s"
  "exclusive (s\<lparr>currentRoom := c\<rparr>) = exclusive s"
  "exclusive (s\<lparr>currentOtherUserId := d\<rparr>) = exclusive s"
  "exclusive (s\<lparr>currentOtherUserAvatar := e\<rparr>) = exclusive s"
  "exclusive (s\<lparr>currentIsBot := f\<rparr>) = exclusive s"
  "exclusive (s\<lparr>chatMessages := g\<rparr>) = exclusive s"
  "exclusive (s\<lparr>pending := h\<rparr>) = exclusive s"
  "exclusive (s\<lparr>timers := t\<rparr>) = exclusive s"
  "exclusive (s\<lparr>chatMessageInput := v\<rparr>) = exclusive s"
  by (simp_all add: exclusive_def)

lemma inv_showChatList:
  assumes "transport_inv s"
  shows "transport_inv (showChatList s)"
proof -
  from assms have "exclusive s" by (simp add: transport_inv_def)
  then have "exclusive (closeSocket (s\<lparr>currentView := VList, currentRoom := None,
      currentOtherUserId := JNull, currentOtherUserAvatar := JNull, currentIsBot := False\<rparr>))"
    by (intro closeSocket_exclusive) simp
  then show ?thesis
    by (simp add: transport_inv_def showChatList_def closeSocket_frame room_selected_def)
qed

lemma inv_closeChatWindow:
  assumes "transport_inv s"
  shows "transport_inv (closeChatWindow s)"
proof -
  from assms have "exclusive (s\<lparr>isOpen := False\<rparr>)" by (simp add: transport_inv_def)
  then have "exclusive (closeSocket (s\<lparr>isOpen := False\<rparr>))" by (rule closeSocket_exclusive)
  then have "exclusive (closeSocket ((closeSocket (s\<lparr>isOpen := False\<rparr>))\<lparr>currentView := VList,
      currentRoom := None, currentOtherUserId := JNull, currentOtherUserAvatar := JNull,
      currentIsBot := False\<rparr>))"
    by (intro closeSocket_exclusive) simp
  then show ?thesis
    by (simp add: transport_inv_def closeChatWindow_def showChatList_def closeSocket_frame
          room_selected_def)
qed

lemma inv_connect:
  assumes "exclusive s" and "currentView s = VDetail" and "room_selected s"
  shows "transport_inv (state_of (connectWebSocket rn s))"
  using connectWebSocket_exclusive [OF assms(1), of rn] assms(2,3)
  by (simp add: transport_inv_def connectWebSocket_chatSocket connectWebSocket_length
        connectWebSocket_view room_selected_def)

lemma loadChatMessages_frame:
  "currentView (loadChatMessages rn s) = currentView s"
  "currentRoom (loadChatMessages rn s) = currentRoom s"
  "chatSocket (loadChatMessages rn s) = chatSocket s"
  "sockets (loadChatMessages rn s) = sockets s"
  by (simp_all add: loadChatMessages_def Let_def split: option.splits)

lemma exclusive_loadChatMessages: "exclusive (loadChatMessages rn s) = exclusive s"
  by (simp add: exclusive_def loadChatMessages_frame)

lemma room_selected_loadChatMessages: "room_selected (loadChatMessages rn s) = room_selected s"
  by (simp add: room_selected_def loadChatMessages_frame)

lemma inv_showChatDetail:
  assumes "transport_inv s"
  shows "transport_inv (showChatDetail rn ou b s)"
proof (cases "ou = None \<or> rn = []")
  case True
  with assms show ?thesis by (auto simp: showChatDetail_def split: option.splits)
next
  case False
  then obtain u where ou: "ou = Some u" and rn: "rn \<noteq> []" by auto
  from assms have ex: "exclusive s" by (simp add: transport_inv_def)
  show ?thesis
  proof (cases "chatMessages s")
    case None
    let ?s2 = "s\<lparr>currentView := VDetail, currentRoom := Some rn, currentOtherUserId := user_id u,
      currentOtherUserAvatar := js_or (avatar u) JNull, currentIsBot := b\<rparr>"
    have eq: "showChatDetail rn ou b s = state_of (connectWebSocket rn (loadChatMessages rn ?s2))"
      using ou rn None by (simp add: showChatDetail_def)
    have "exclusive (loadChatMessages rn ?s2)"
      using ex by (simp add: exclusive_loadChatMessages)
    moreover have "currentView (loadChatMessages rn ?s2) = VDetail"
      by (simp add: loadChatMessages_frame)
    moreover have "room_selected (loadChatMessages rn ?s2)"
      using rn by (simp add: room_selected_loadChatMessages) (simp add: room_selected_def)
    ultimately show ?thesis
      unfolding eq by (rule inv_connect)
  next
    case (Some items)
    let ?s2 = "s\<lparr>currentView := VDetail, currentRoom := Some rn, currentOtherUserId := user_id u,
      currentOtherUserAvatar := js_or (avatar u) JNull, currentIsBot := b,
      chatMessages := Some [Notice ''Loading messages...'']\<rparr>"
    have eq: "showChatDetail rn ou b s = state_of (connectWebSocket rn (loadChatMessages rn ?s2))"
      using ou rn Some by (simp add: showChatDetail_def)
    have "exclusive (loadChatMessages rn ?s2)"
      using ex by (simp add: exclusive_loadChatMessages)
    moreover have "currentView (loadChatMessages rn ?s2) = VDetail"
      by (simp add: loadChatMessages_frame)
    moreover have "room_selected (loadChatMessages rn ?s2)"
      using rn by (simp add: room_selected_loadChatMessages) (simp add: room_selected_def)
    ultimately show ?thesis
      unfolding eq by (rule inv_connect)
  qed
qed

lemma inv_connect_core:
  assumes inv: "transport_inv s" and c: "core s1 = core s" and r: "room_selected s"
  shows "transport_inv (state_of (connectWebSocket rn s1))"
proof -
  from inv have i1: "transport_inv s1" by (simp only: transport_inv_core [OF c])
  from c have "currentRoom s1 = currentRoom s" by (simp add: core_def)
  with r have r1: "room_selected s1" by (simp add: room_selected_def)
  from i1 r1 have "exclusive s1" "currentView s1 = VDetail"
    by (simp_all add: transport_inv_def)
  then show ?thesis using r1 by (rule inv_connect)
qed

lemma core_sendMessage:
  "core (sendMessage s) = core s \<or>
   (\<exists>rn s1. currentRoom s = Some rn \<and> rn \<noteq> [] \<and> core s1 = core s \<and>
      core (sendMessage s) = core (state_of (connectWebSocket rn s1)))"
proof (cases "chatMessageInput s")
  case None
  then show ?thesis by (simp add: sendMessage_def)
next
  case (Some v)
  show ?thesis
  proof (cases "trim v = []")
    case True
    with Some show ?thesis by (simp add: sendMessage_def)
  next
    case False
    note nonblank = this
    show ?thesis
    proof (cases "room_selected s")
      case False
      with Some nonblank have "sendMessage s = s\<lparr>alerts := alerts s @ [''Please select a conversation'']\<rparr>"
        by (auto simp: sendMessage_def room_selected_def split: option.splits)
      then show ?thesis by (simp add: core_def)
    next
      case True
      then obtain rn where rn: "currentRoom s = Some rn" "rn \<noteq> []"
        by (auto simp: room_selected_def split: option.splits)
      let ?s1 = "addMessageToChat (JStr (trim v)) (JStr ''You'') True (currentUserId s) JNull s"
      have c1: "core ?s1 = core s" by (rule core_addMessageToChat)
      show ?thesis
      proof (cases "socket_ready s")
        case True
        then obtain i where i: "chatSocket s = Some i"
          by (auto simp: socket_ready_def split: option.splits)
        note eq = sendMessage_ready [OF Some nonblank rn i True refl]
        have "core (sendMessage s) = core ?s1"
          by (simp add: eq core_def map_live_ws_send)
        with c1 show ?thesis by simp
      next
        case False
        note nr = this
        have "core (sendMessage s) = core (state_of (connectWebSocket rn ?s1))"
        proof (cases "hash_free rn")
          case True
          show ?thesis
            by (simp add: sendMessage_reconnects [OF Some nonblank rn nr True refl] core_def)
        next
          case False
          show ?thesis
            by (simp add: sendMessage_throws [OF Some nonblank rn nr False refl])
        qed
        with rn c1 show ?thesis by blast
      qed
    qed
  qed
qed

lemma inv_sendMessage:
  assumes "transport_inv s"
  shows "transport_inv (sendMessage s)"
proof -
  from core_sendMessage [of s] show ?thesis
  proof
    assume c: "core (sendMessage s) = core s"
    from assms show ?thesis by (simp only: transport_inv_core [OF c])
  next
    assume "\<exists>rn s1. currentRoom s = Some rn \<and> rn \<noteq> [] \<and> core s1 = core s \<and>
      core (sendMessage s) = core (state_of (connectWebSocket rn s1))"
    then obtain rn s1 where a: "currentRoom s = Some rn" "rn \<noteq> []" "core s1 = core s"
      "core (sendMessage s) = core (state_of (connectWebSocket rn s1))" by blast
    from a(1,2) have "room_selected s" by (simp add: room_selected_def)
    with assms a(3) have "transport_inv (state_of (connectWebSocket rn s1))"
      by (rule inv_connect_core)
    then show ?thesis by (simp only: transport_inv_core [OF a(4)])
  qed
qed

lemma core_sendMessage_retry: "core (sendMessage_retry m s) = core s"
  by (simp add: sendMessage_retry_def core_def map_live_ws_send split: option.splits)

lemma core_toggleChatWindow: "core (toggleChatWindow s) = core s"
  by (simp add: toggleChatWindow_def Let_def core_loadChatRooms) (simp add: core_def)

lemma core_openChatWidget: "core (openChatWidget uid s) = core s"
  by (simp add: openChatWidget_def Let_def core_loadChatRooms core_toggleChatWindow)

lemma core_minimizeChatWindow: "core (minimizeChatWindow s) = core s"
  by (simp add: minimizeChatWindow_def core_def)

lemma core_handleSearch: "core (handleSearch v s) = core s"
  by (simp add: handleSearch_def core_renderChatList) (simp add: core_def)

lemma core_filterClick: "core (filterClick v s) = core s"
  by (simp add: filterClick_def core_renderChatList) (simp add: core_def)

lemma inv_socket_opens:
  assumes "transport_inv s"
  shows "transport_inv (step s (SocketOpens i))"
proof (cases "i < length (sockets s) \<and> readyState (sockets s ! i) = CONNECTING")
  case False
  with assms show ?thesis by auto
next
  case True
  then have "map live ((sockets s)[i := (sockets s ! i)\<lparr>readyState := OPEN\<rparr>]) = map live (sockets s)"
    by (simp add: map_update live_def list_update_same_conv)
  then have c: "core (step s (SocketOpens i)) = core s"
    using True by (simp add: core_def)
  from assms show ?thesis by (simp only: transport_inv_core [OF c])
qed

lemma inv_socket_closes:
  assumes "transport_inv s"
  shows "transport_inv (step s (SocketCloses i))"
proof (cases "i < length (sockets s)")
  case False
  with assms show ?thesis by simp
next
  case True
  have nth: "live ((sockets s)[i := (sockets s ! i)\<lparr>readyState := CLOSED\<rparr>] ! j) \<longrightarrow>
             live (sockets s ! j)" if "j < length (sockets s)" for j
    using that by (cases "j = i") (simp_all add: live_def)
  from assms have e: "exclusive s" by (simp add: transport_inv_def)
  have "exclusive (step s (SocketCloses i))"
    using True e nth by (auto simp: exclusive_def)
  with assms True show ?thesis
    by (simp add: transport_inv_def room_selected_def split: option.splits)
qed

lemma core_type_text: "core (step s (TypeText v)) = core s"
  by (simp add: core_def split: option.splits)

lemma core_timer_fires: "core (step s (TimerFires i)) = core s"
proof (cases "i < length (timers s)")
  case True
  then have "step s (TimerFires i) =
      sendMessage_retry (snd (timers s ! i)) (s\<lparr>timers := remove_nth i (timers s)\<rparr>)"
    by simp
  then have "core (step s (TimerFires i)) = core (s\<lparr>timers := remove_nth i (timers s)\<rparr>)"
    by (simp only: core_sendMessage_retry)
  then show ?thesis by (simp add: core_def)
next
  case False
  then show ?thesis by simp
qed

lemma core_reply: "core (step s (Reply i r)) = core s"
proof (cases "i < length (pending s)")
  case False
  then show ?thesis by simp
next
  case True
  show ?thesis
  proof (cases "handle_reply (pending s ! i) r (s\<lparr>pending := remove_nth i (pending s)\<rparr>)")
    case None
    with True show ?thesis by simp
  next
    case (Some s')
    from core_handle_reply [OF Some] have "core s' = core s" by (simp add: core_def)
    with True Some show ?thesis by simp
  qed
qed

lemma core_socket_message: "core (step s (SocketMessage i e)) = core s"
  by (simp add: core_onmessage)

lemma inv_step:
  assumes "transport_inv s"
  shows "transport_inv (step s e)"
proof (cases e)
  case ToggleChatWindow
  with assms show ?thesis by (simp only: step.simps transport_inv_core [OF core_toggleChatWindow])
next
  case (OpenChatWidget uid)
  with assms show ?thesis by (simp only: step.simps transport_inv_core [OF core_openChatWidget])
next
  case CloseChatWindow
  with assms show ?thesis by (simp add: inv_closeChatWindow)
next
  case MinimizeChatWindow
  with assms show ?thesis by (simp only: step.simps transport_inv_core [OF core_minimizeChatWindow])
next
  case ShowChatList
  with assms show ?thesis by (simp add: inv_showChatList)
next
  case (ShowChatDetail rn ou b)
  with assms show ?thesis by (simp add: inv_showChatDetail)
next
  case (HandleSearch v)
  with assms show ?thesis by (simp only: step.simps transport_inv_core [OF core_handleSearch])
next
  case (FilterClick f)
  with assms show ?thesis by (simp only: step.simps transport_inv_core [OF core_filterClick])
next
  case (TypeText v)
  with assms show ?thesis by (simp only: transport_inv_core [OF core_type_text])
next
  case SendMessage
  with assms show ?thesis by (simp add: inv_sendMessage)
next
  case (TimerFires i)
  with assms show ?thesis by (simp only: transport_inv_core [OF core_timer_fires])
next
  case (Reply i r)
  with assms show ?thesis by (simp only: transport_inv_core [OF core_reply])
next
  case (SocketOpens i)
  with assms show ?thesis by (simp only: inv_socket_opens)
next
  case (SocketCloses i)
  with assms show ?thesis by (simp only: inv_socket_closes)
next
  case (SocketMessage i fr)
  with assms show ?thesis by (simp only: transport_inv_core [OF core_socket_message])
qed

lemma inv_run: "transport_inv s \<Longrightarrow> transport_inv (run s evs)"
  unfolding run_def by (induction evs arbitrary: s) (simp_all add: inv_step)

lemma inv_boot: "transport_inv (boot pg)"
  by (simp add: boot_def chatState0_def loadChatRooms_def transport_inv_def exclusive_def
        room_selected_def Let_def)

lemma at_most_one_live:
  "\<forall>j < length ws. P (ws ! j) \<longrightarrow> k = Some j \<Longrightarrow> length (filter P ws) \<le> 1"
proof (induction ws arbitrary: k)
  case Nil
  then show ?case by simp
next
  case (Cons w ws)
  show ?case
  proof (cases "P w")
    case True
    with Cons.prems have k: "k = Some 0" by auto
    have "\<not> P (ws ! j)" if "j < length ws" for j
    proof
      assume "P (ws ! j)"
      with that Cons.prems have "k = Some (Suc j)" by auto
      with k show False by simp
    qed
    then have "filter P ws = []" by (auto simp: filter_empty_conv in_set_conv_nth)
    with True show ?thesis by simp
  next
    case False
    have "\<forall>j < length ws. P (ws ! j) \<longrightarrow> map_option (\<lambda>n. n - 1) k = Some j"
    proof (intro allI impI)
      fix j assume "j < length ws" "P (ws ! j)"
      with Cons.prems have "k = Some (Suc j)" by auto
      then show "map_option (\<lambda>n. n - 1) k = Some j" by simp
    qed
    from Cons.IH [OF this] False show ?thesis by simp
  qed
qed

lemma inv_open_transports: "transport_inv s \<Longrightarrow> open_transports s \<le> 1"
  unfolding open_transports_def transport_inv_def exclusive_def
  by (blast intro: at_most_one_live)

lemma closeSocket_no_live:
  assumes "exclusive s"
  shows "filter live (sockets (closeSocket s)) = []"
  using closeSocket_all_closed [OF assms]
  by (auto simp: filter_empty_conv in_set_conv_nth closeSocket_frame)

lemma connectWebSocket_one_live:
  assumes "exclusive s" and "hash_free rn"
  shows "open_transports (state_of (connectWebSocket rn s)) = 1"
  by (simp add: open_transports_def connectWebSocket_returns [OF assms(2)] newWebSocket_frame
        closeSocket_no_live [OF assms(1)] live_def)

lemma showChatDetail_connects:
  assumes "rn \<noteq> []"
  shows "\<exists>s3. showChatDetail rn (Some u) b s = state_of (connectWebSocket rn s3) \<and>
              sockets s3 = sockets s \<and> chatSocket s3 = chatSocket s \<and>
              currentView s3 = VDetail \<and> currentRoom s3 = Some rn"
proof (cases "chatMessages s")
  case None
  let ?s2 = "s\<lparr>currentView := VDetail, currentRoom := Some rn, currentOtherUserId := user_id u,
      currentOtherUserAvatar := js_or (avatar u) JNull, currentIsBot := b\<rparr>"
  have "showChatDetail rn (Some u) b s = state_of (connectWebSocket rn (loadChatMessages rn ?s2))"
    using assms None by (simp add: showChatDetail_def)
  moreover have "sockets (loadChatMessages rn ?s2) = sockets s"
    "chatSocket (loadChatMessages rn ?s2) = chatSocket s"
    "currentView (loadChatMessages rn ?s2) = VDetail"
    "currentRoom (loadChatMessages rn ?s2) = Some rn"
    by (simp_all add: loadChatMessages_frame)
  ultimately show ?thesis by blast
next
  case (Some items)
  let ?s2 = "s\<lparr>currentView := VDetail, currentRoom := Some rn, currentOtherUserId := user_id u,
      currentOtherUserAvatar := js_or (avatar u) JNull, currentIsBot := b,
      chatMessages := Some [Notice ''Loading messages...'']\<rparr>"
  have "showChatDetail rn (Some u) b s = state_of (connectWebSocket rn (loadChatMessages rn ?s2))"
    using assms Some by (simp add: showChatDetail_def)
  moreover have "sockets (loadChatMessages rn ?s2) = sockets s"
    "chatSocket (loadChatMessages rn ?s2) = chatSocket s"
    "currentView (loadChatMessages rn ?s2) = VDetail"
    "currentRoom (loadChatMessages rn ?s2) = Some rn"
    by (simp_all add: loadChatMessages_frame)
  ultimately show ?thesis by blast
qed

lemma teardown_showChatList:
  assumes "exclusive s"
  shows "chatSocket (showChatList s) = None \<and> currentView (showChatList s) = VList \<and>
         open_transports (showChatList s) = 0"
proof -
  let ?s1 = "s\<lparr>currentView := VList, currentRoom := None, currentOtherUserId := JNull,
      currentOtherUserAvatar := JNull, currentIsBot := False\<rparr>"
  from assms have "exclusive ?s1" by simp
  from closeSocket_no_live [OF this] show ?thesis
    by (simp add: showChatList_def open_transports_def closeSocket_frame)
qed

lemma teardown_closeChatWindow:
  assumes "exclusive s"
  shows "chatSocket (closeChatWindow s) = None \<and> currentView (closeChatWindow s) = VList \<and>
         open_transports (closeChatWindow s) = 0"
proof -
  from assms have "exclusive (s\<lparr>isOpen := False\<rparr>)" by simp
  then have "exclusive (closeSocket (s\<lparr>isOpen := False\<rparr>))" by (rule closeSocket_exclusive)
  from teardown_showChatList [OF this] show ?thesis
    by (simp add: closeChatWindow_def)
qed

lemma setup_showChatDetail:
  assumes ex: "exclusive s" and rn: "rn \<noteq> []" and plain: "hash_free rn"
  shows "chatSocket (showChatDetail rn (Some u) b s) = Some (length (sockets s)) \<and>
         (\<forall>j < length (sockets s). \<not> live (sockets (showChatDetail rn (Some u) b s) ! j)) \<and>
         live (sockets (showChatDetail rn (Some u) b s) ! length (sockets s)) \<and>
         open_transports (showChatDetail rn (Some u) b s) = 1"
proof -
  from showChatDetail_connects [OF rn, of u b s] obtain s3 where
    eq: "showChatDetail rn (Some u) b s = state_of (connectWebSocket rn s3)"
    and so: "sockets s3 = sockets s" and cs: "chatSocket s3 = chatSocket s" by blast
  from ex so cs have e3: "exclusive s3" by (simp add: exclusive_def)
  have "chatSocket (state_of (connectWebSocket rn s3)) = Some (length (sockets s))"
    by (simp add: connectWebSocket_chatSocket plain so)
  moreover have "\<forall>j < length (sockets s). \<not> live (sockets (state_of (connectWebSocket rn s3)) ! j)"
    using connectWebSocket_old_closed [OF e3] so by simp
  moreover have "live (sockets (state_of (connectWebSocket rn s3)) ! length (sockets s))"
    using connectWebSocket_new_live [OF plain, of s3] so by simp
  moreover have "open_transports (state_of (connectWebSocket rn s3)) = 1"
    by (rule connectWebSocket_one_live [OF e3 plain])
  ultimately show ?thesis unfolding eq by blast
qed

text \<open>The toggle button changes \<^verbatim>\<open>isOpen\<close> and may ask for the room list; nothing else.\<close>

lemma toggleChatWindow_keeps:
  "chatSocket (toggleChatWindow s) = chatSocket s \<and> sockets (toggleChatWindow s) = sockets s \<and>
   currentView (toggleChatWindow s) = currentView s \<and>
   isOpen (toggleChatWindow s) = (\<not> isOpen s)"
  by (simp add: toggleChatWindow_def loadChatRooms_def Let_def)

text \<open>What holds in addition as long as no room name with \<^verbatim>\<open>#\<close> is opened.\<close>

lemma connected_inv_core:
  assumes "core s' = core s"
  shows "connected_inv s' = connected_inv s"
  using assms by (simp add: core_def connected_inv_def)

lemma connected_showChatList: "connected_inv (showChatList s)"
  by (simp add: connected_inv_def showChatList_def closeSocket_frame)

lemma connected_showChatDetail:
  assumes "connected_inv s" and "hash_free rn"
  shows "connected_inv (showChatDetail rn ou b s)"
proof (cases "ou = None \<or> rn = []")
  case True
  with assms(1) show ?thesis by (auto simp: showChatDetail_def split: option.splits)
next
  case False
  then obtain u where ou: "ou = Some u" and rn: "rn \<noteq> []" by auto
  from showChatDetail_connects [OF rn, of u b s] obtain s3 where
    eq: "showChatDetail rn (Some u) b s = state_of (connectWebSocket rn s3)"
    and cr: "currentRoom s3 = Some rn" by blast
  show ?thesis
    unfolding ou eq
    by (simp add: connected_inv_def connectWebSocket_chatSocket connectWebSocket_view cr assms(2))
qed

lemma connected_sendMessage:
  assumes "connected_inv s"
  shows "connected_inv (sendMessage s)"
proof -
  from core_sendMessage [of s] show ?thesis
  proof
    assume c: "core (sendMessage s) = core s"
    from assms show ?thesis by (simp only: connected_inv_core [OF c])
  next
    assume "\<exists>rn s1. currentRoom s = Some rn \<and> rn \<noteq> [] \<and> core s1 = core s \<and>
      core (sendMessage s) = core (state_of (connectWebSocket rn s1))"
    then obtain rn s1 where a: "currentRoom s = Some rn" "core s1 = core s"
      "core (sendMessage s) = core (state_of (connectWebSocket rn s1))" by blast
    from assms a(1) have hf: "hash_free rn" by (simp add: connected_inv_def)
    from a(1,2) have "currentRoom s1 = Some rn" by (simp add: core_def)
    then have "connected_inv (state_of (connectWebSocket rn s1))"
      by (simp add: connected_inv_def connectWebSocket_chatSocket connectWebSocket_view hf)
    then show ?thesis by (simp only: connected_inv_core [OF a(3)])
  qed
qed

lemma connected_step:
  assumes "connected_inv s" and "plain_event e"
  shows "connected_inv (step s e)"
proof (cases e)
  case ToggleChatWindow
  with assms show ?thesis by (simp only: step.simps connected_inv_core [OF core_toggleChatWindow])
next
  case (OpenChatWidget uid)
  with assms show ?thesis by (simp only: step.simps connected_inv_core [OF core_openChatWidget])
next
  case CloseChatWindow
  then show ?thesis by (simp add: closeChatWindow_def connected_showChatList)
next
  case MinimizeChatWindow
  with assms show ?thesis by (simp only: step.simps connected_inv_core [OF core_minimizeChatWindow])
next
  case ShowChatList
  then show ?thesis by (simp add: connected_showChatList)
next
  case (ShowChatDetail rn ou b)
  with assms show ?thesis by (simp add: connected_showChatDetail)
next
  case (HandleSearch v)
  with assms show ?thesis by (simp only: step.simps connected_inv_core [OF core_handleSearch])
next
  case (FilterClick f)
  with assms show ?thesis by (simp only: step.simps connected_inv_core [OF core_filterClick])
next
  case (TypeText v)
  with assms show ?thesis by (simp only: connected_inv_core [OF core_type_text])
next
  case SendMessage
  with assms show ?thesis by (simp add: connected_sendMessage)
next
  case (TimerFires i)
  with assms show ?thesis by (simp only: connected_inv_core [OF core_timer_fires])
next
  case (Reply i r)
  with assms show ?thesis by (simp only: connected_inv_core [OF core_reply])
next
  case (SocketOpens i)
  with assms show ?thesis by (simp add: connected_inv_def)
next
  case (SocketCloses i)
  with assms show ?thesis by (simp add: connected_inv_def)
next
  case (SocketMessage i fr)
  with assms show ?thesis by (simp only: connected_inv_core [OF core_socket_message])
qed

lemma connected_run:
  "connected_inv s \<Longrightarrow> list_all plain_event evs \<Longrightarrow> connected_inv (run s evs)"
  unfolding run_def by (induction evs arbitrary: s) (simp_all add: connected_step)

lemma connected_boot: "connected_inv (boot pg)"
  by (simp add: boot_def chatState0_def loadChatRooms_def connected_inv_def Let_def)

lemma switched_transport_facts:
  "currentView switched = VDetail" "length (sockets switched) = 2"
  "''room_7_42_x'' \<noteq> []" "chatSocket switched = Some 1"
  by code_simp+

text \<open>
  Claim C2, as stated, fails in two places. The toggle button closes the widget
  (\<^verbatim>\<open>isOpen\<close> becomes false) and tears nothing down: the view stays the detail view and
  the socket stays open. And opening a room whose name holds \<^verbatim>\<open>#\<close> leaves the detail
  view with no socket, since the constructor of the socket throws.
\<close>

theorem transport_exclusive_counterexample:
  "isOpen toggled_shut = False \<and> currentView toggled_shut = VDetail \<and>
   chatSocket toggled_shut = Some 0 \<and> open_transports toggled_shut = 1 \<and>
   currentView hash_opened = VDetail \<and> chatSocket hash_opened = None"
  by code_simp

text \<open>
  Claim C2, amended. In every state reached from the start of the script by any sequence
  of events, at most one socket is connecting or open, and \<^verbatim>\<open>chatSocket\<close> is non-null
  only in the detail view; as long as no room whose name holds \<^verbatim>\<open>#\<close> is opened,
  \<^verbatim>\<open>chatSocket\<close> is non-null exactly when the view is the detail view. From a reached
  state, returning to the list (\<^verbatim>\<open>showChatList\<close>) and closing the widget by its close
  buttons (\<^verbatim>\<open>closeChatWindow\<close>) null \<^verbatim>\<open>chatSocket\<close> and leave no socket open; the
  toggle button (\<^verbatim>\<open>toggleChatWindow\<close>) hides or shows the widget and keeps the view and
  the socket as they are; opening a room whose name holds no \<^verbatim>\<open>#\<close> closes every socket
  there was and leaves the new one as the only one open.
\<close>

theorem transport_exclusive:
  "let s = run (boot pg) evs
   in open_transports s \<le> 1 \<and>
      (chatSocket s \<noteq> None \<longrightarrow> currentView s = VDetail) \<and>
      (list_all plain_event evs \<longrightarrow> (chatSocket s \<noteq> None) = (currentView s = VDetail)) \<and>
      (chatSocket (showChatList s) = None \<and> currentView (showChatList s) = VList \<and>
       open_transports (showChatList s) = 0) \<and>
      (chatSocket (closeChatWindow s) = None \<and> currentView (closeChatWindow s) = VList \<and>
       open_transports (closeChatWindow s) = 0) \<and>
      (chatSocket (toggleChatWindow s) = chatSocket s \<and>
       sockets (toggleChatWindow s) = sockets s \<and>
       currentView (toggleChatWindow s) = currentView s \<and>
       isOpen (toggleChatWindow s) = (\<not> isOpen s)) \<and>
      (\<forall>rn u b. rn \<noteq> [] \<and> hash_free rn \<longrightarrow>
         chatSocket (showChatDetail rn (Some u) b s) = Some (length (sockets s)) \<and>
         (\<forall>j < length (sockets s). \<not> live (sockets (showChatDetail rn (Some u) b s) ! j)) \<and>
         live (sockets (showChatDetail rn (Some u) b s) ! length (sockets s)) \<and>
         open_transports (showChatDetail rn (Some u) b s) = 1)"
proof -
  define s where "s = run (boot pg) evs"
  have inv: "transport_inv s"
    unfolding s_def by (rule inv_run [OF inv_boot])
  then have ex: "exclusive s" by (simp add: transport_inv_def)
  from inv have a: "chatSocket s \<noteq> None \<longrightarrow> currentView s = VDetail"
    by (simp add: transport_inv_def)
  have a': "list_all plain_event evs \<longrightarrow> (chatSocket s \<noteq> None) = (currentView s = VDetail)"
  proof
    assume "list_all plain_event evs"
    then have "connected_inv s"
      unfolding s_def by (rule connected_run [OF connected_boot])
    with a show "(chatSocket s \<noteq> None) = (currentView s = VDetail)"
      by (auto simp: connected_inv_def)
  qed
  note b = inv_open_transports [OF inv]
  note c = teardown_showChatList [OF ex]
  note d = teardown_closeChatWindow [OF ex]
  note t = toggleChatWindow_keeps [of s]
  have e: "\<forall>rn u b. rn \<noteq> [] \<and> hash_free rn \<longrightarrow>
         chatSocket (showChatDetail rn (Some u) b s) = Some (length (sockets s)) \<and>
         (\<forall>j < length (sockets s). \<not> live (sockets (showChatDetail rn (Some u) b s) ! j)) \<and>
         live (sockets (showChatDetail rn (Some u) b s) ! length (sockets s)) \<and>
         open_transports (showChatDetail rn (Some u) b s) = 1"
    using setup_showChatDetail [OF ex] by blast
  from a a' b c d t e show ?thesis
    unfolding Let_def s_def [symmetric] by blast
qed

theorem transport_exclusive_witness:
  "list_all plain_event
     [ShowChatDetail ''room_7_42_x'' (Some anna) False,
      ShowChatDetail ''room_7_43_x'' (Some bob) False] \<and>
   chatSocket switched \<noteq> None \<and> currentView switched = VDetail \<and>
   open_transports switched \<le> 1 \<and>
   chatSocket (showChatList switched) = None \<and>
   open_transports (closeChatWindow switched) = 0 \<and>
   chatSocket (toggleChatWindow switched) = Some 1 \<and>
   ''room_7_42_x'' \<noteq> [] \<and> hash_free ''room_7_42_x'' \<and>
   chatSocket (showChatDetail ''room_7_42_x'' (Some anna) False switched) = Some 2 \<and>
   open_transports (showChatDetail ''room_7_42_x'' (Some anna) False switched) = 1"
proof -
  have p: "list_all plain_event
     [ShowChatDetail ''room_7_42_x'' (Some anna) False,
      ShowChatDetail ''room_7_43_x'' (Some bob) False]"
    "hash_free ''room_7_42_x''"
    by (simp_all add: hash_free_def)
  note t = transport_exclusive [of page7
    "[ShowChatDetail ''room_7_42_x'' (Some anna) False, ShowChatDetail ''room_7_43_x'' (Some bob) False]",
    folded switched_def, unfolded Let_def]
  from t p switched_transport_facts show ?thesis by auto
qed

end
